theory Spec2Isabelle
  imports Main "HOL-Library.Sublist"
begin

section \<open>Agent B: the task workflow\<close>

text \<open>
  The responder keeps one \<open>TaskWorkflowState\<close> per task. Its two lists hold Python
  dicts; each dict shape is a record here. The key \<open>"message_id"\<close> of an outbound
  dict is the field \<open>out_message_id\<close>, and the keys of the signal payload carry the
  prefix \<open>msg_\<close>, because one theory cannot declare a field name twice.
\<close>

record InboundMessage =
  message_id :: string
  content :: string
  reply_to :: string
  timestamp :: nat

record OutboundMessage =
  out_message_id :: string
  recipient_url :: string
  sent :: bool

record TaskWorkflowState =
  task_id :: string
  inbound_messages :: "InboundMessage list"
  outbound_messages :: "OutboundMessage list"

record signal_msg =
  msg_message_id :: string
  msg_content :: string
  msg_reply_to :: string

text \<open>\<open>run\<close> starts from \<open>TaskWorkflowState(task_id=task_id)\<close>: both lists empty.\<close>

definition initial_state :: "string \<Rightarrow> TaskWorkflowState" where
  "initial_state tid =
     \<lparr>task_id = tid, inbound_messages = [], outbound_messages = []\<rparr>"

subsection \<open>Activities and suspension points\<close>

text \<open>
  The handler calls three activities through \<open>await workflow.execute_activity\<close>. An
  activity is named with its arguments; what comes back is \<open>Inr v\<close> when the activity
  returned \<open>v\<close> and \<open>Inl e\<close> when \<open>execute_activity\<close> raised (every attempt failed or
  the timeout passed). \<open>crash_worker\<close> takes no argument, \<open>process_message\<close> takes
  task id, message id and content, \<open>send_a2a_message\<close> takes recipient url, task id,
  message id and content.
\<close>

datatype activity =
    crash_worker
  | process_message string string string
  | send_a2a_message string string string string

datatype error = ActivityError string | StopIteration

type_synonym activity_result = "error + string"

text \<open>
  A handler runs until it returns, raises, or reaches an \<open>await\<close>. At an \<open>await\<close> it is
  suspended: \<open>Await st a k\<close> carries the workflow state at that moment, the activity
  asked for, and the rest of the handler as a function of the activity's result.
  Handlers of one task are taken one after the other (the single writer per conversation
  of section 5 of the specification), so the rest of a handler continues from the state
  it was suspended in.
\<close>

datatype handler =
    Done TaskWorkflowState
  | Failed error TaskWorkflowState
  | Await TaskWorkflowState activity "activity_result \<Rightarrow> handler"

subsection \<open>The signal handler \<open>inbound_message\<close>\<close>

text \<open>\<open>"EXECUTE_ORDER_66" in content\<close>: Python's substring test.\<close>

fun is_substring :: "string \<Rightarrow> string \<Rightarrow> bool" where
  "is_substring needle [] = (needle = [])"
| "is_substring needle (c # cs) = (prefix needle (c # cs) \<or> is_substring needle cs)"

text \<open>\<open>reply_id = f"r-{message_id}"\<close>\<close>

definition reply_id :: "string \<Rightarrow> string" where
  "reply_id mid = ''r-'' @ mid"

text \<open>
  \<open>outbound["sent"] = True\<close> writes into the dict that \<open>next(...)\<close> returned, which is
  the first dict of the list with that message id.
\<close>

fun mark_sent :: "string \<Rightarrow> OutboundMessage list \<Rightarrow> OutboundMessage list" where
  "mark_sent rid [] = []"
| "mark_sent rid (m # ms) =
     (if out_message_id m = rid then m\<lparr>sent := True\<rparr> # ms else m # mark_sent rid ms)"

text \<open>
  The last part of the handler, from the derivation of the reply id to the end: the
  outbox check (\<open>check_outbox\<close>: append a pending dict unless one with that id is
  there), the lookup with \<open>next\<close> (which raises \<open>StopIteration\<close> on no match), and
  the send guarded by the \<open>sent\<close> flag.
\<close>

definition check_outbox :: "string \<Rightarrow> string \<Rightarrow> TaskWorkflowState \<Rightarrow> TaskWorkflowState" where
  "check_outbox rid rto st =
     (if \<not> list_ex (\<lambda>m. out_message_id m = rid) (outbound_messages st)
      then st\<lparr>outbound_messages := outbound_messages st @
             [\<lparr>out_message_id = rid, recipient_url = rto, sent = False\<rparr>]\<rparr>
      else st)"

definition dispatch :: "string \<Rightarrow> string \<Rightarrow> string \<Rightarrow> TaskWorkflowState \<Rightarrow> handler" where
  "dispatch mid rto response st =
     (let rid = reply_id mid;
          st1 = check_outbox rid rto st
      in case find (\<lambda>m. out_message_id m = rid) (outbound_messages st1) of
           None \<Rightarrow> Failed StopIteration st1
         | Some outbound \<Rightarrow>
             if \<not> sent outbound
             then Await st1 (send_a2a_message rto (task_id st1) rid response)
                    (\<lambda>r. case r of
                           Inl e \<Rightarrow> Failed e st1
                         | Inr _ \<Rightarrow> Done (st1\<lparr>outbound_messages :=
                                            mark_sent rid (outbound_messages st1)\<rparr>))
             else Done st1)"

text \<open>\<open>response = await workflow.execute_activity(process_message, ...)\<close>, then the rest.\<close>

definition process :: "string \<Rightarrow> string \<Rightarrow> string \<Rightarrow> TaskWorkflowState \<Rightarrow> handler" where
  "process mid c rto st =
     Await st (process_message (task_id st) mid c)
       (\<lambda>r. case r of Inl e \<Rightarrow> Failed e st | Inr response \<Rightarrow> dispatch mid rto response st)"

text \<open>
  \<open>self.state.inbound_messages.append({...})\<close>; \<open>now\<close> is the value of
  \<open>workflow.now().timestamp()\<close> when the signal is handled.
\<close>

definition record_inbound :: "nat \<Rightarrow> signal_msg \<Rightarrow> TaskWorkflowState \<Rightarrow> TaskWorkflowState" where
  "record_inbound now msg st =
     st\<lparr>inbound_messages := inbound_messages st @
        [\<lparr>message_id = msg_message_id msg, content = msg_content msg,
          reply_to = msg_reply_to msg, timestamp = now\<rparr>]\<rparr>"

text \<open>The whole handler, in the order of the source.\<close>

definition inbound_message :: "nat \<Rightarrow> signal_msg \<Rightarrow> TaskWorkflowState \<Rightarrow> handler" where
  "inbound_message now msg st =
     (let mid = msg_message_id msg; c = msg_content msg; rto = msg_reply_to msg in
      if list_ex (\<lambda>m. message_id m = mid) (inbound_messages st) then Done st
      else
        let st1 = record_inbound now msg st
        in if is_substring ''EXECUTE_ORDER_66'' c
           then Await st1 crash_worker
                  (\<lambda>r. case r of Inl e \<Rightarrow> Failed e st1 | Inr _ \<Rightarrow> process mid c rto st1)
           else process mid c rto st1)"

subsection \<open>Running a handler\<close>

text \<open>
  \<open>run h rs\<close> answers the handler's activities with the results \<open>rs\<close>, in order. It
  gives the state the handler leaves, the activities that completed with their results,
  and how the handler ended. When the results run out at an \<open>await\<close> the handler stays
  suspended there: that is the worker dying during the activity.
\<close>

datatype ending = Returned | Raised error | Suspended activity

fun run :: "handler \<Rightarrow> activity_result list \<Rightarrow>
    TaskWorkflowState \<times> (activity \<times> activity_result) list \<times> ending" where
  "run (Done st) rs = (st, [], Returned)"
| "run (Failed e st) rs = (st, [], Raised e)"
| "run (Await st a k) [] = (st, [], Suspended a)"
| "run (Await st a k) (r # rs) =
     (case run (k r) rs of (st', tr, e) \<Rightarrow> (st', (a, r) # tr, e))"

subsection \<open>Executions of Agent B\<close>

text \<open>
  An execution is a list of steps taken one after the other on the workflow state. A
  step is a delivery of the signal (the whole handler) or a forced re-execution of the
  dispatch part alone, as a retry or a replay would do; each step carries the results its
  activities get. \<open>execute\<close> gives the final state and all completed activity calls.
\<close>

datatype step =
    Deliver nat signal_msg "activity_result list"
  | Redispatch string string string "activity_result list"

fun handler_of :: "step \<Rightarrow> TaskWorkflowState \<Rightarrow> handler" where
  "handler_of (Deliver now msg rs) st = inbound_message now msg st"
| "handler_of (Redispatch mid rto resp rs) st = dispatch mid rto resp st"

fun results_of :: "step \<Rightarrow> activity_result list" where
  "results_of (Deliver now msg rs) = rs"
| "results_of (Redispatch mid rto resp rs) = rs"

fun execute :: "step list \<Rightarrow> TaskWorkflowState \<Rightarrow>
    TaskWorkflowState \<times> (activity \<times> activity_result) list" where
  "execute [] st = (st, [])"
| "execute (s # ss) st =
     (case run (handler_of s st) (results_of s) of (st1, tr1, e) \<Rightarrow>
        (case execute ss st1 of (st2, tr2) \<Rightarrow> (st2, tr1 @ tr2)))"

text \<open>The message ids delivered by an execution, and the record its first delivery of
  \<open>m\<close> writes.\<close>

fun delivered_ids :: "step list \<Rightarrow> string list" where
  "delivered_ids [] = []"
| "delivered_ids (Deliver now msg rs # ss) = msg_message_id msg # delivered_ids ss"
| "delivered_ids (Redispatch mid rto resp rs # ss) = delivered_ids ss"

fun first_delivery :: "string \<Rightarrow> step list \<Rightarrow> InboundMessage option" where
  "first_delivery m [] = None"
| "first_delivery m (Deliver now msg rs # ss) =
     (if msg_message_id msg = m
      then Some \<lparr>message_id = m, content = msg_content msg,
                  reply_to = msg_reply_to msg, timestamp = now\<rparr>
      else first_delivery m ss)"
| "first_delivery m (Redispatch mid rto resp rs # ss) = first_delivery m ss"

text \<open>The inbound records with message id \<open>m\<close>; the outbound records with reply id \<open>r\<close>.\<close>

definition records_of :: "string \<Rightarrow> TaskWorkflowState \<Rightarrow> InboundMessage list" where
  "records_of m st = filter (\<lambda>r. message_id r = m) (inbound_messages st)"

definition outbox_records :: "string \<Rightarrow> TaskWorkflowState \<Rightarrow> OutboundMessage list" where
  "outbox_records r st = filter (\<lambda>m. out_message_id m = r) (outbound_messages st)"

text \<open>
  A successful transmission of reply \<open>r\<close> is a \<open>send_a2a_message\<close> call for \<open>r\<close> that
  returned; the handler then sets the flag. \<open>sent_flag r st\<close> is the flag the handler
  reads for \<open>r\<close>: that of the first outbound dict with this id, false when there is none.
\<close>

fun transmitted :: "string \<Rightarrow> activity \<times> activity_result \<Rightarrow> bool" where
  "transmitted r (send_a2a_message u t i c, Inr v) = (i = r)"
| "transmitted r other = False"

definition transmissions :: "string \<Rightarrow> (activity \<times> activity_result) list \<Rightarrow> nat" where
  "transmissions r tr = length (filter (transmitted r) tr)"

definition sent_flag :: "string \<Rightarrow> TaskWorkflowState \<Rightarrow> bool" where
  "sent_flag r st =
     (case find (\<lambda>m. out_message_id m = r) (outbound_messages st) of
        None \<Rightarrow> False
      | Some m \<Rightarrow> sent m)"

text \<open>
  \<open>never_unsent xs ys\<close>: the outbox \<open>ys\<close> keeps every dict of \<open>xs\<close> at its place, with
  its id and recipient, and no flag has gone from true to false.
\<close>

definition never_unsent :: "OutboundMessage list \<Rightarrow> OutboundMessage list \<Rightarrow> bool" where
  "never_unsent xs ys \<longleftrightarrow> length xs \<le> length ys \<and>
     (\<forall>i<length xs. out_message_id (ys ! i) = out_message_id (xs ! i) \<and>
                    recipient_url (ys ! i) = recipient_url (xs ! i) \<and>
                    (sent (xs ! i) \<longrightarrow> sent (ys ! i)))"

text \<open>
  The activities a run asked for, the one it is suspended on included, and the message
  ids of the sends among them.
\<close>

definition requested ::
    "TaskWorkflowState \<times> (activity \<times> activity_result) list \<times> ending \<Rightarrow> activity list" where
  "requested res = (case res of (st, tr, e) \<Rightarrow>
      map fst tr @ (case e of Suspended a \<Rightarrow> [a] | _ \<Rightarrow> []))"

fun send_ids :: "activity list \<Rightarrow> string list" where
  "send_ids [] = []"
| "send_ids (send_a2a_message u t i c # as) = i # send_ids as"
| "send_ids (a # as) = send_ids as"

subsection \<open>What a run may do to the outbox\<close>

text \<open>
  What one run may do to reply \<open>r\<close>, seen from the state \<open>st\<close> it starts in. Every
  handler satisfies it, and executions compose it.
\<close>

definition step_ok :: "string \<Rightarrow> TaskWorkflowState \<Rightarrow>
    TaskWorkflowState \<times> (activity \<times> activity_result) list \<times> ending \<Rightarrow> bool" where
  "step_ok r st res = (case res of (st', tr, e) \<Rightarrow>
     transmissions r tr \<le> 1 \<and>
     (sent_flag r st \<longrightarrow> transmissions r tr = 0) \<and>
     (0 < transmissions r tr \<longrightarrow> sent_flag r st') \<and>
     (sent_flag r st \<longrightarrow> sent_flag r st') \<and>
     never_unsent (outbound_messages st) (outbound_messages st') \<and>
     (length (outbox_records r st) \<le> 1 \<longrightarrow> length (outbox_records r st') \<le> 1))"

text \<open>The reply ids a run of the handling of message \<open>mid\<close> may use.\<close>

definition ids_ok :: "string \<Rightarrow> TaskWorkflowState \<Rightarrow>
    TaskWorkflowState \<times> (activity \<times> activity_result) list \<times> ending \<Rightarrow> bool" where
  "ids_ok mid st res \<longleftrightarrow>
     set (send_ids (requested res)) \<subseteq> {''r-'' @ mid} \<and>
     set (map out_message_id (outbound_messages (fst res))) \<subseteq>
       set (map out_message_id (outbound_messages st)) \<union> {''r-'' @ mid}"

subsection \<open>Sample inputs for Agent B\<close>

definition m3_first :: signal_msg where
  "m3_first = \<lparr>msg_message_id = ''m3'', msg_content = ''[[TRIGGER:EXECUTE_ORDER_66]]'',
                msg_reply_to = ''http://agent-a:8081/a2a/message/send''\<rparr>"

definition m3_again :: signal_msg where
  "m3_again = \<lparr>msg_message_id = ''m3'', msg_content = ''something else'',
                msg_reply_to = ''http://agent-a:8081/a2a/message/send''\<rparr>"

definition three_deliveries :: "step list" where
  "three_deliveries =
     [Deliver 10 m3_first [],
      Deliver 20 m3_again [Inr ''reply'', Inr ''ok''],
      Deliver 30 m3_first [Inr ''done'', Inr ''reply'', Inr ''ok'']]"

definition replayed_dispatch :: "step list" where
  "replayed_dispatch =
     [Deliver 10 m3_first [Inr ''done'', Inr ''Yes, my lord.'', Inl (ActivityError ''timeout'')],
      Redispatch ''m3'' ''http://agent-a:8081/a2a/message/send'' ''Yes, my lord.'' [Inr ''ok''],
      Redispatch ''m3'' ''http://agent-a:8081/a2a/message/send'' ''Yes, my lord.'' [Inr ''ok''],
      Deliver 20 m3_first [Inr ''done'', Inr ''Yes, my lord.'', Inr ''ok'']]"

section \<open>Agent A: the send activity and the initiator workflow\<close>

subsection \<open>The activity \<open>sendA2AMessage\<close> (send-a2a-message.ts)\<close>

text \<open>
  The fields \<open>taskId\<close>, \<open>messageId\<close> and \<open>content\<close> occur in several TypeScript
  interfaces; each record below puts its own prefix on them.
\<close>

record SendA2AMessageParams =
  recipientUrl :: string
  p_taskId :: string
  p_messageId :: string
  replyTo :: string
  p_content :: string

text \<open>
  A thrown JavaScript error, by its \<open>name\<close> and its \<open>message\<close>. What \<open>fetch\<close> does is
  not the program's choice: it rejects (\<open>FetchRejected\<close>, a \<open>TypeError\<close>), or it
  resolves with a status, a status text and a body, where the body is \<open>None\<close> when
  \<open>response.json()\<close> rejects.
\<close>

datatype js_error = JsError string string

fun error_name :: "js_error \<Rightarrow> string" where
  "error_name (JsError n m) = n"

datatype fetch_result =
    FetchRejected string
  | HttpResponse nat string "string option"

text \<open>Template literals turn a number into its decimal digits.\<close>

definition digit :: "nat \<Rightarrow> char" where
  "digit n = ''0123456789'' ! n"

function decimal :: "nat \<Rightarrow> string" where
  "decimal n = (if n < 10 then [digit n] else decimal (n div 10) @ [digit (n mod 10)])"
  by pat_completeness auto
termination
  by (relation "measure id") auto

declare decimal.simps [simp del]

text \<open>\<open>response.ok\<close>: a status from 200 to 299.\<close>

definition ok :: "nat \<Rightarrow> bool" where
  "ok status \<longleftrightarrow> 200 \<le> status \<and> status \<le> 299"

text \<open>
  One attempt of the activity, given what \<open>fetch\<close> did. Every failure leaves through
  the \<open>catch\<close> block, which logs and rethrows the same error; a status outside 200..299
  becomes a plain \<open>Error\<close> whose message holds the status, whatever the status is.
\<close>

definition sendA2AMessage :: "SendA2AMessageParams \<Rightarrow> fetch_result \<Rightarrow> js_error + string" where
  "sendA2AMessage params fr =
     (case fr of
        FetchRejected m \<Rightarrow> Inl (JsError ''TypeError'' m)
      | HttpResponse status statusText body \<Rightarrow>
          if \<not> ok status
          then Inl (JsError ''Error'' (''HTTP '' @ decimal status @ '': '' @ statusText))
          else (case body of
                  None \<Rightarrow> Inl (JsError ''SyntaxError'' ''Unexpected end of JSON input'')
                | Some result \<Rightarrow> Inr result))"

subsection \<open>The retry options of \<open>proxyActivities\<close>\<close>

text \<open>
  The workflow calls the activity through a proxy with these options (intervals in
  milliseconds). The source gives no \<open>nonRetryableErrorTypes\<close>, so the list is empty.
\<close>

record RetryPolicy =
  maximumAttempts :: nat
  initialInterval :: nat
  backoffCoefficient :: nat
  maximumInterval :: nat
  nonRetryableErrorTypes :: "string list"

definition retry :: RetryPolicy where
  "retry = \<lparr>maximumAttempts = 3, initialInterval = 1000, backoffCoefficient = 2,
             maximumInterval = 10000, nonRetryableErrorTypes = []\<rparr>"

text \<open>
  The retry loop itself belongs to Temporal; it is written here as the options define
  it (section 6 of the specification: initial interval, multiplier, cap, maximum number
  of attempts, non-retryable error types). \<open>attempt n\<close> is the outcome of the \<open>n\<close>-th
  attempt, counted from 1. The loop stops at the first success, at an error whose name
  is listed as non-retryable, or when \<open>maximumAttempts\<close> attempts have been made; before
  attempt \<open>n + 1\<close> it waits \<open>initialInterval * backoffCoefficient ^ (n - 1)\<close>, capped by
  \<open>maximumInterval\<close>. The result is the outcome, the number of attempts made and the
  waits between them.
\<close>

definition backoff :: "RetryPolicy \<Rightarrow> nat \<Rightarrow> nat" where
  "backoff pol n = min (initialInterval pol * backoffCoefficient pol ^ (n - 1)) (maximumInterval pol)"

function execute_activity ::
    "RetryPolicy \<Rightarrow> (nat \<Rightarrow> js_error + 'a) \<Rightarrow> nat \<Rightarrow> (js_error + 'a) \<times> nat \<times> nat list" where
  "execute_activity pol attempt n =
     (case attempt n of
        Inr v \<Rightarrow> (Inr v, n, [])
      | Inl e \<Rightarrow>
          if error_name e \<in> set (nonRetryableErrorTypes pol) \<or> maximumAttempts pol \<le> n
          then (Inl e, n, [])
          else (case execute_activity pol attempt (Suc n) of
                  (r, k, waits) \<Rightarrow> (r, k, backoff pol n # waits)))"
  by pat_completeness auto
termination
  by (relation "measure (\<lambda>(pol, attempt, n). maximumAttempts pol - n)") auto

declare execute_activity.simps [simp del]

text \<open>The proxy: the activity under the retry options, on the fetches of its attempts.\<close>

definition proxy_sendA2AMessage ::
    "(nat \<Rightarrow> fetch_result) \<Rightarrow> SendA2AMessageParams \<Rightarrow> (js_error + string) \<times> nat \<times> nat list" where
  "proxy_sendA2AMessage fetch params =
     execute_activity retry (\<lambda>n. sendA2AMessage params (fetch n)) 1"

subsection \<open>The workflow state and the signal handler (initiator-workflow.ts)\<close>

text \<open>
  \<open>sentMessages\<close> and \<open>receivedReplies\<close> hold objects of one shape,
  \<open>{messageId, content, timestamp}\<close>.
\<close>

record entry =
  messageId :: string
  e_content :: string
  e_timestamp :: nat

record ReplyMessage =
  r_messageId :: string
  r_content :: string

record InitiatorWorkflowState =
  taskId :: string
  sentMessages :: "entry list"
  receivedReplies :: "entry list"

text \<open>
  The handler of the signal \<open>replyReceived\<close>; \<open>now\<close> is what \<open>Date.now()\<close> returns in
  the handler. It pushes whatever reply it is given.
\<close>

definition replyReceived :: "ReplyMessage \<Rightarrow> nat \<Rightarrow> InitiatorWorkflowState \<Rightarrow> InitiatorWorkflowState" where
  "replyReceived reply now state =
     state\<lparr>receivedReplies := receivedReplies state @
       [\<lparr>messageId = r_messageId reply, e_content = r_content reply, e_timestamp = now\<rparr>]\<rparr>"

subsection \<open>What a run of the workflow meets\<close>

text \<open>
  Everything the workflow does not decide: what \<open>fetch\<close> does at attempt \<open>n\<close> of turn
  \<open>i\<close>, what \<open>Date.now()\<close> returns when turn \<open>i\<close> is recorded, and the replies signalled
  (each with the \<open>Date.now()\<close> of its handler) while the workflow waits for the activity
  of turn \<open>i\<close>, while it sleeps after turn \<open>i\<close>, and during the last sleep.
\<close>

record world =
  fetches :: "nat \<Rightarrow> nat \<Rightarrow> fetch_result"
  now_at_push :: "nat \<Rightarrow> nat"
  replies_while_sending :: "nat \<Rightarrow> (ReplyMessage \<times> nat) list"
  replies_while_sleeping :: "nat \<Rightarrow> (ReplyMessage \<times> nat) list"
  replies_in_grace :: "(ReplyMessage \<times> nat) list"

text \<open>
  A run is followed through the list of the states it goes through, oldest first (the
  last one is the current value of \<open>state\<close>), and through the log of its activity calls
  (parameters, attempts made, waits, outcome) and sleeps (milliseconds), in order.
\<close>

datatype wf_event =
    Activity SendA2AMessageParams nat "nat list" "js_error + string"
  | Sleep nat

record exec =
  states :: "InitiatorWorkflowState list"
  log :: "wf_event list"

definition current :: "exec \<Rightarrow> InitiatorWorkflowState" where
  "current x = last (states x)"

definition update :: "(InitiatorWorkflowState \<Rightarrow> InitiatorWorkflowState) \<Rightarrow> exec \<Rightarrow> exec" where
  "update f x = x\<lparr>states := states x @ [f (current x)]\<rparr>"

definition emit :: "wf_event \<Rightarrow> exec \<Rightarrow> exec" where
  "emit ev x = x\<lparr>log := log x @ [ev]\<rparr>"

fun signals :: "(ReplyMessage \<times> nat) list \<Rightarrow> exec \<Rightarrow> exec" where
  "signals [] x = x"
| "signals ((reply, now) # rs) x = signals rs (update (replyReceived reply now) x)"

subsection \<open>The workflow \<open>InitiatorWorkflow\<close>\<close>

text \<open>The content of turn \<open>i\<close>: the \<open>if\<close> chain of the loop body.\<close>

definition turn_content :: "nat \<Rightarrow> string" where
  "turn_content i =
     (if i = 1 then ''The time is near, Commander.''
      else if i = 2 then ''Soon, the Jedi will fall.''
      else ''[[TRIGGER:EXECUTE_ORDER_66]]'')"

text \<open>The parameters of the activity call of turn \<open>i\<close>.\<close>

definition turn_params :: "string \<Rightarrow> string \<Rightarrow> string \<Rightarrow> nat \<Rightarrow> SendA2AMessageParams" where
  "turn_params tid agentBUrl agentAUrl i =
     \<lparr>recipientUrl = agentBUrl @ ''/a2a/message/send'', p_taskId = tid,
      p_messageId = ''m'' @ decimal i, replyTo = agentAUrl @ ''/a2a/message/send'',
      p_content = turn_content i\<rparr>"

text \<open>\<open>state.sentMessages.push({messageId, content, timestamp: Date.now()})\<close>\<close>

definition push_sent :: "nat \<Rightarrow> nat \<Rightarrow> InitiatorWorkflowState \<Rightarrow> InitiatorWorkflowState" where
  "push_sent i now state =
     state\<lparr>sentMessages := sentMessages state @
       [\<lparr>messageId = ''m'' @ decimal i, e_content = turn_content i, e_timestamp = now\<rparr>]\<rparr>"

text \<open>
  The \<open>try\<close> block of turn \<open>i\<close>: the proxy call, during which replies may be
  signalled, and after a success the push onto \<open>sentMessages\<close> and the sleep of 30
  seconds, during which replies may be signalled again. The first component is the error
  thrown out of the block, if any; the second is the run so far.
\<close>

definition try_block ::
    "world \<Rightarrow> string \<Rightarrow> string \<Rightarrow> string \<Rightarrow> nat \<Rightarrow> exec \<Rightarrow> js_error option \<times> exec" where
  "try_block w tid agentBUrl agentAUrl i x =
     (let params = turn_params tid agentBUrl agentAUrl i
      in case proxy_sendA2AMessage (fetches w i) params of
           (result, n, waits) \<Rightarrow>
             let x1 = emit (Activity params n waits result)
                        (signals (replies_while_sending w i) x)
             in (case result of
                   Inl e \<Rightarrow> (Some e, x1)
                 | Inr response \<Rightarrow>
                     (None,
                      signals (replies_while_sleeping w i)
                        (emit (Sleep 30000) (update (push_sent i (now_at_push w i)) x1)))))"

text \<open>
  One pass of the loop body: the \<open>catch\<close> block logs the error and lets the loop go
  on, so nothing is thrown out of a pass.
\<close>

definition turn ::
    "world \<Rightarrow> string \<Rightarrow> string \<Rightarrow> string \<Rightarrow> nat \<Rightarrow> exec \<Rightarrow> js_error option \<times> exec" where
  "turn w tid agentBUrl agentAUrl i x =
     (case try_block w tid agentBUrl agentAUrl i x of
        (Some e, x') \<Rightarrow> (None, x')
      | (None, x') \<Rightarrow> (None, x'))"

text \<open>
  \<open>for (let i = 1; i <= 3; i++)\<close>, from the value \<open>i\<close> on. An error thrown out of a
  pass would end the loop.
\<close>

function loop ::
    "world \<Rightarrow> string \<Rightarrow> string \<Rightarrow> string \<Rightarrow> nat \<Rightarrow> exec \<Rightarrow> js_error option \<times> exec" where
  "loop w tid agentBUrl agentAUrl i x =
     (if i \<le> 3
      then (case turn w tid agentBUrl agentAUrl i x of
              (Some e, x') \<Rightarrow> (Some e, x')
            | (None, x') \<Rightarrow> loop w tid agentBUrl agentAUrl (i + 1) x')
      else (None, x))"
  by pat_completeness auto
termination
  by (relation "measure (\<lambda>(w, tid, b, a, i, x). 4 - i)") auto

declare loop.simps [simp del]

text \<open>
  The workflow: the initial state, the loop, the last sleep of 10 seconds with the
  replies that arrive in it, and the return of \<open>state\<close>. The result is \<open>Inr\<close> of the
  returned state, or \<open>Inl\<close> of an error thrown out of the function; the run comes with
  it.
\<close>

definition InitiatorWorkflow ::
    "string \<Rightarrow> string \<Rightarrow> string \<Rightarrow> world \<Rightarrow> (js_error + InitiatorWorkflowState) \<times> exec" where
  "InitiatorWorkflow tid agentBUrl agentAUrl w =
     (let state = \<lparr>taskId = tid, sentMessages = [], receivedReplies = []\<rparr>
      in case loop w tid agentBUrl agentAUrl 1 \<lparr>states = [state], log = []\<rparr> of
           (Some e, x) \<Rightarrow> (Inl e, x)
         | (None, x) \<Rightarrow>
             (let x' = signals (replies_in_grace w) (emit (Sleep 10000) x)
              in (Inr (current x'), x')))"

section \<open>Agent A: the HTTP handlers\<close>

subsection \<open>\<open>POST /a2a/message/send\<close> (server.ts)\<close>

text \<open>
  The request body, as far as the handler reads it. A field that is absent is \<open>None\<close>;
  JavaScript's \<open>!v\<close> holds for an absent field and for the empty string.
\<close>

record reply_params =
  rp_taskId :: "string option"
  rp_messageId :: "string option"
  rp_content :: "string option"

record rpc_request =
  rq_params :: "reply_params option"
  rq_id :: "string option"

definition falsy :: "string option \<Rightarrow> bool" where
  "falsy v \<longleftrightarrow> v = None \<or> v = Some []"

text \<open>
  What \<open>workflowHandle.signal\<close> does is Temporal's answer: it resolves, it throws
  \<open>WorkflowNotFoundError\<close>, or it throws something else.
\<close>

datatype signal_outcome = Signalled | WorkflowNotFoundError | SignalError string

datatype level = Info | Warning | Problem

text \<open>
  The JSON-RPC body sent back: \<open>{result: {status}, id}\<close> or
  \<open>{error: {code, message}, id}\<close>. A reply of the handler is the HTTP status, the body,
  the console lines and the signal it sent, if it sent one.
\<close>

datatype rpc_body =
    RpcResult string "string option"
  | RpcError int string "string option"

record rpc_reply =
  http_status :: nat
  rpc_body :: rpc_body
  console :: "(level \<times> string) list"
  signal_sent :: "(string \<times> ReplyMessage) option"

definition missing_fields :: "rpc_request \<Rightarrow> rpc_reply" where
  "missing_fields req =
     \<lparr>http_status = 400,
      rpc_body = RpcError (- 32602) ''Missing required fields: taskId, messageId, content'' (rq_id req),
      console = [], signal_sent = None\<rparr>"

definition message_send :: "(string \<Rightarrow> ReplyMessage \<Rightarrow> signal_outcome) \<Rightarrow> rpc_request \<Rightarrow> rpc_reply" where
  "message_send signal req =
     (let params = (case rq_params req of
                      None \<Rightarrow> \<lparr>rp_taskId = None, rp_messageId = None, rp_content = None\<rparr>
                    | Some p \<Rightarrow> p)
      in if falsy (rp_taskId params) \<or> falsy (rp_messageId params) \<or> falsy (rp_content params)
         then missing_fields req
         else (case (rp_taskId params, rp_messageId params, rp_content params) of
                 (Some t, Some m, Some c) \<Rightarrow>
                   let workflowId = ''initiator-'' @ t;
                       reply = \<lparr>r_messageId = m, r_content = c\<rparr>;
                       received = (Info, ''Received reply '' @ m @ '' for task '' @ t);
                       success = RpcResult ''received'' (if falsy (rq_id req) then Some m else rq_id req)
                   in (case signal workflowId reply of
                         Signalled \<Rightarrow>
                           \<lparr>http_status = 200, rpc_body = success,
                            console = [received,
                              (Info, ''Signaled workflow '' @ workflowId @ '' with reply '' @ m)],
                            signal_sent = Some (workflowId, reply)\<rparr>
                       | WorkflowNotFoundError \<Rightarrow>
                           \<lparr>http_status = 200, rpc_body = success,
                            console = [received,
                              (Warning, ''Workflow '' @ workflowId @
                                 '' not found, reply may have arrived late'')],
                            signal_sent = Some (workflowId, reply)\<rparr>
                       | SignalError e \<Rightarrow>
                           \<lparr>http_status = 500,
                            rpc_body = RpcError (- 32603) ''Internal server error'' (rq_id req),
                            console = [received,
                              (Problem, ''Failed to signal workflow: '' @ e),
                              (Problem, ''Error processing A2A message: '' @ e)],
                            signal_sent = Some (workflowId, reply)\<rparr>)
               | _ \<Rightarrow> missing_fields req))"

subsection \<open>\<open>POST /start-task\<close> (demo-driver.ts)\<close>

text \<open>
  The request body has \<open>taskId\<close> and \<open>turns\<close>. The value of \<open>turns\<close> may be any JSON
  value, so its type is left open; \<open>render\<close> is its conversion to a string in the
  template literal of the log line. The destructuring default \<open>turns = 3\<close> applies when
  the field is absent.
\<close>

record 'v start_request =
  sr_taskId :: "string option"
  sr_turns :: "'v option"

record driver_config =
  TASK_QUEUE :: string
  AGENT_B_URL :: "string option"
  AGENT_A_URL :: "string option"

text \<open>\<open>process.env.X || d\<close>\<close>

definition or_default :: "string option \<Rightarrow> string \<Rightarrow> string" where
  "or_default v d = (if falsy v then d else (case v of Some s \<Rightarrow> s | None \<Rightarrow> d))"

text \<open>
  The call \<open>temporalClient.workflow.start(InitiatorWorkflow, {taskQueue, workflowId,
  args})\<close>; Temporal starts the workflow (\<open>None\<close>) or the call throws.
\<close>

record workflow_start =
  ws_taskQueue :: string
  ws_workflowId :: string
  ws_args :: "string list"

datatype start_body =
    StartSuccess string string string
  | StartError string "string option"

record start_reply =
  st_status :: nat
  st_body :: start_body
  st_console :: "(level \<times> string) list"
  st_call :: "workflow_start option"

definition start_task ::
    "('v \<Rightarrow> string) \<Rightarrow> driver_config \<Rightarrow> (workflow_start \<Rightarrow> js_error option) \<Rightarrow>
     'v start_request \<Rightarrow> start_reply" where
  "start_task render cfg start req =
     (let turns = (case sr_turns req of None \<Rightarrow> ''3'' | Some v \<Rightarrow> render v)
      in if falsy (sr_taskId req)
         then \<lparr>st_status = 400, st_body = StartError ''Missing required field: taskId'' None,
               st_console = [], st_call = None\<rparr>
         else (case sr_taskId req of
                 None \<Rightarrow> \<lparr>st_status = 400,
                           st_body = StartError ''Missing required field: taskId'' None,
                           st_console = [], st_call = None\<rparr>
               | Some t \<Rightarrow>
                   let starting = (Info, ''[Demo Driver] Starting task '' @ t @ '' with '' @
                                          turns @ '' turns'');
                       workflowId = ''initiator-'' @ t;
                       agentBUrl = or_default (AGENT_B_URL cfg) ''http://agent-b:8080'';
                       agentAUrl = or_default (AGENT_A_URL cfg) ''http://agent-a:8081'';
                       call = \<lparr>ws_taskQueue = TASK_QUEUE cfg, ws_workflowId = workflowId,
                               ws_args = [t, agentBUrl, agentAUrl]\<rparr>
                   in (case start call of
                         None \<Rightarrow>
                           \<lparr>st_status = 200,
                            st_body = StartSuccess t workflowId
                              (''Task '' @ t @ '' started. Workflow ID: '' @ workflowId),
                            st_console = [starting,
                              (Info, ''[Demo Driver] Started workflow '' @ workflowId)],
                            st_call = Some call\<rparr>
                       | Some e \<Rightarrow>
                           \<lparr>st_status = 500,
                            st_body = StartError ''Failed to start task''
                              (Some (case e of JsError n m \<Rightarrow> m)),
                            st_console = [starting,
                              (Problem, ''[Demo Driver] Error starting task: '' @
                                 (case e of JsError n m \<Rightarrow> m))],
                            st_call = Some call\<rparr>)))"

text \<open>
  The run of the workflow a \<open>POST /start-task\<close> leads to, in a given world: there is one
  when the handler answered 200, and it runs \<open>InitiatorWorkflow\<close> on the three
  arguments of the start call.
\<close>

definition started_run ::
    "start_reply \<Rightarrow> world \<Rightarrow> ((js_error + InitiatorWorkflowState) \<times> exec) option" where
  "started_run rep w =
     (if st_status rep = 200
      then (case st_call rep of
              None \<Rightarrow> None
            | Some call \<Rightarrow>
                (case ws_args call of
                   [t, b, a] \<Rightarrow> Some (InitiatorWorkflow t b a w)
                 | _ \<Rightarrow> None))
      else None)"

subsection \<open>Reading a run of the workflow\<close>

text \<open>
  Whether the activity call of turn \<open>i\<close> ends with a result, after its retries; the
  entry a signalled reply is recorded as; the replies that reach the workflow in a world,
  in order of arrival (those of a sleep arrive only if the workflow gets to that sleep).
\<close>

definition turn_ok :: "world \<Rightarrow> string \<Rightarrow> string \<Rightarrow> string \<Rightarrow> nat \<Rightarrow> bool" where
  "turn_ok w tid agentBUrl agentAUrl i =
     (case fst (proxy_sendA2AMessage (fetches w i) (turn_params tid agentBUrl agentAUrl i)) of
        Inr v \<Rightarrow> True
      | Inl e \<Rightarrow> False)"

fun reply_entry :: "ReplyMessage \<times> nat \<Rightarrow> entry" where
  "reply_entry (reply, now) =
     \<lparr>messageId = r_messageId reply, e_content = r_content reply, e_timestamp = now\<rparr>"

definition arrived_in_turn ::
    "world \<Rightarrow> string \<Rightarrow> string \<Rightarrow> string \<Rightarrow> nat \<Rightarrow> (ReplyMessage \<times> nat) list" where
  "arrived_in_turn w tid agentBUrl agentAUrl i =
     replies_while_sending w i @
     (if turn_ok w tid agentBUrl agentAUrl i then replies_while_sleeping w i else [])"

definition arrived :: "world \<Rightarrow> string \<Rightarrow> string \<Rightarrow> string \<Rightarrow> (ReplyMessage \<times> nat) list" where
  "arrived w tid agentBUrl agentAUrl =
     arrived_in_turn w tid agentBUrl agentAUrl 1 @
     arrived_in_turn w tid agentBUrl agentAUrl 2 @
     arrived_in_turn w tid agentBUrl agentAUrl 3 @
     replies_in_grace w"

text \<open>The activity calls and the sleeps of a log.\<close>

fun calls :: "wf_event list \<Rightarrow> SendA2AMessageParams list" where
  "calls [] = []"
| "calls (Activity params n waits result # evs) = params # calls evs"
| "calls (Sleep d # evs) = calls evs"

fun sleeps :: "wf_event list \<Rightarrow> nat list" where
  "sleeps [] = []"
| "sleeps (Activity params n waits result # evs) = sleeps evs"
| "sleeps (Sleep d # evs) = d # sleeps evs"

fun attempts_made :: "wf_event list \<Rightarrow> nat list" where
  "attempts_made [] = []"
| "attempts_made (Activity params n waits result # evs) = n # attempts_made evs"
| "attempts_made (Sleep d # evs) = attempts_made evs"

subsection \<open>Driver monotonicity, in the words of the specification\<close>

text \<open>
  Over the states of a run, oldest first: the length of \<open>sentMessages\<close> never decreases;
  it is bounded by the configured turn count; every received reply has a sent turn it
  corresponds to. A reply to turn \<open>m\<close> carries the id \<open>r-m\<close>; the same id counts as
  corresponding too.
\<close>

definition sent_nondecreasing :: "InitiatorWorkflowState list \<Rightarrow> bool" where
  "sent_nondecreasing h =
     sorted_wrt (\<lambda>s s'. length (sentMessages s) \<le> length (sentMessages s')) h"

definition sent_bounded :: "nat \<Rightarrow> InitiatorWorkflowState list \<Rightarrow> bool" where
  "sent_bounded n h = (\<forall>s\<in>set h. length (sentMessages s) \<le> n)"

definition corresponds :: "entry \<Rightarrow> entry \<Rightarrow> bool" where
  "corresponds r t \<longleftrightarrow> messageId r = ''r-'' @ messageId t \<or> messageId r = messageId t"

definition replies_correlated :: "InitiatorWorkflowState list \<Rightarrow> bool" where
  "replies_correlated h =
     (\<forall>s\<in>set h. \<forall>r\<in>set (receivedReplies s). \<exists>t\<in>set (sentMessages s). corresponds r t)"

definition spec_driver_monotonicity :: "nat \<Rightarrow> InitiatorWorkflowState list \<Rightarrow> bool" where
  "spec_driver_monotonicity configured h \<longleftrightarrow>
     sent_nondecreasing h \<and> sent_bounded configured h \<and> replies_correlated h"

text \<open>What the code keeps of the replies: the list only grows.\<close>

definition replies_only_grow :: "InitiatorWorkflowState list \<Rightarrow> bool" where
  "replies_only_grow h =
     sorted_wrt (\<lambda>s s'. prefix (receivedReplies s) (receivedReplies s')) h"

subsection \<open>Following the loop\<close>

text \<open>
  A state grows into another when both lists are extended at the end. A run is in order,
  up to \<open>n\<close> sent turns, when its states are listed in growing order, each grows into
  the current one, and the current one has at most \<open>n\<close> sent turns.
\<close>

definition grows :: "InitiatorWorkflowState \<Rightarrow> InitiatorWorkflowState \<Rightarrow> bool" where
  "grows s s' \<longleftrightarrow> prefix (sentMessages s) (sentMessages s') \<and>
      prefix (receivedReplies s) (receivedReplies s')"

definition in_order :: "nat \<Rightarrow> exec \<Rightarrow> bool" where
  "in_order n x \<longleftrightarrow> states x \<noteq> [] \<and> sorted_wrt grows (states x) \<and>
     (\<forall>s\<in>set (states x). grows s (current x)) \<and> length (sentMessages (current x)) \<le> n"

text \<open>The run after pass \<open>i\<close> of the loop, and the run when the workflow returns.\<close>

definition after_turn :: "world \<Rightarrow> string \<Rightarrow> string \<Rightarrow> string \<Rightarrow> nat \<Rightarrow> exec \<Rightarrow> exec" where
  "after_turn w tid agentBUrl agentAUrl i x = snd (turn w tid agentBUrl agentAUrl i x)"

definition finished :: "world \<Rightarrow> string \<Rightarrow> string \<Rightarrow> string \<Rightarrow> exec" where
  "finished w tid agentBUrl agentAUrl =
     signals (replies_in_grace w) (emit (Sleep 10000)
       (after_turn w tid agentBUrl agentAUrl 3
         (after_turn w tid agentBUrl agentAUrl 2
           (after_turn w tid agentBUrl agentAUrl 1
              \<lparr>states = [\<lparr>taskId = tid, sentMessages = [], receivedReplies = []\<rparr>],
               log = []\<rparr>))))"

subsection \<open>Reading a request to the reply endpoint\<close>

text \<open>The three required fields of a request, when all are present and non-empty.\<close>

definition required_fields :: "rpc_request \<Rightarrow> (string \<times> string \<times> string) option" where
  "required_fields req =
     (case rq_params req of
        None \<Rightarrow> None
      | Some p \<Rightarrow>
          (case (rp_taskId p, rp_messageId p, rp_content p) of
             (Some t, Some m, Some c) \<Rightarrow>
               if t = [] \<or> m = [] \<or> c = [] then None else Some (t, m, c)
           | _ \<Rightarrow> None))"

subsection \<open>Sample inputs for Agent A\<close>

text \<open>A world where every request is answered 200 and every reply comes during the
  sleep of its turn.\<close>

definition all_ok :: world where
  "all_ok =
     \<lparr>fetches = (\<lambda>i n. HttpResponse 200 ''OK'' (Some ''{}'')),
      now_at_push = (\<lambda>i. 1000 * i),
      replies_while_sending = (\<lambda>i. []),
      replies_while_sleeping =
        (\<lambda>i. [(\<lparr>r_messageId = ''r-m'' @ decimal i, r_content = ''Yes, my lord.''\<rparr>,
               1000 * i + 5)]),
      replies_in_grace = []\<rparr>"

text \<open>
  A world where Agent B handles the first message and replies, but its answer to the
  POST is lost at every attempt, so the activity of turn 1 fails; the other turns go well.
\<close>

definition lost_answer :: world where
  "lost_answer =
     \<lparr>fetches = (\<lambda>i n. if i = 1 then FetchRejected ''fetch failed''
                        else HttpResponse 200 ''OK'' (Some ''{}'')),
      now_at_push = (\<lambda>i. 1000 * i),
      replies_while_sending =
        (\<lambda>i. if i = 1 then [(\<lparr>r_messageId = ''r-m1'', r_content = ''Yes, my lord.''\<rparr>, 900)]
              else []),
      replies_while_sleeping = (\<lambda>i. []),
      replies_in_grace = []\<rparr>"

text \<open>A world where Agent B answers 401 to everything.\<close>

definition unauthorized :: world where
  "unauthorized =
     \<lparr>fetches = (\<lambda>i n. HttpResponse 401 ''Unauthorized'' None),
      now_at_push = (\<lambda>i. 1000 * i),
      replies_while_sending = (\<lambda>i. []),
      replies_while_sleeping = (\<lambda>i. []),
      replies_in_grace = []\<rparr>"

definition demo_config :: driver_config where
  "demo_config = \<lparr>TASK_QUEUE = ''agent-a-tasks'', AGENT_B_URL = None, AGENT_A_URL = None\<rparr>"

definition one_turn_request :: "nat start_request" where
  "one_turn_request = \<lparr>sr_taskId = Some ''demo-1'', sr_turns = Some 1\<rparr>"

definition five_turn_request :: "nat start_request" where
  "five_turn_request = \<lparr>sr_taskId = Some ''demo-1'', sr_turns = Some 5\<rparr>"

definition temporal_up :: "workflow_start \<Rightarrow> js_error option" where
  "temporal_up call = None"

text \<open>Replies posted to Agent A for a task whose workflow is gone: one complete, one
  with an empty content.\<close>

definition late_reply :: rpc_request where
  "late_reply =
     \<lparr>rq_params = Some \<lparr>rp_taskId = Some ''demo-1'', rp_messageId = Some ''r-m3'',
                         rp_content = Some ''Yes, my lord.''\<rparr>,
      rq_id = Some ''r-m3''\<rparr>"

definition empty_reply :: rpc_request where
  "empty_reply =
     \<lparr>rq_params = Some \<lparr>rp_taskId = Some ''demo-1'', rp_messageId = Some ''r-m3'',
                         rp_content = Some ''''\<rparr>,
      rq_id = Some ''r-m3''\<rparr>"

definition workflow_gone :: "string \<Rightarrow> ReplyMessage \<Rightarrow> signal_outcome" where
  "workflow_gone workflowId reply = WorkflowNotFoundError"

definition temporal_down :: "string \<Rightarrow> ReplyMessage \<Rightarrow> signal_outcome" where
  "temporal_down workflowId reply = SignalError ''14 UNAVAILABLE''"

text \<open>The runs of the demo task in the first two worlds.\<close>

definition run_all_ok :: "(js_error + InitiatorWorkflowState) \<times> exec" where
  "run_all_ok =
     InitiatorWorkflow ''demo-1'' ''http://agent-b:8080'' ''http://agent-a:8081'' all_ok"

definition run_lost_answer :: "(js_error + InitiatorWorkflowState) \<times> exec" where
  "run_lost_answer =
     InitiatorWorkflow ''demo-1'' ''http://agent-b:8080'' ''http://agent-a:8081'' lost_answer"

section \<open>Properties of Agent B\<close>

subsection \<open>Reading a run\<close>

lemma run_Await_Cons_fst: "fst (run (Await st a k) (r # rs)) = fst (run (k r) rs)"
  by (simp split: prod.splits)

lemma run_Await_Cons_trace:
  "fst (snd (run (Await st a k) (r # rs))) = (a, r) # fst (snd (run (k r) rs))"
  by (simp split: prod.splits)

lemma run_Await_Cons_end: "snd (snd (run (Await st a k) (r # rs))) = snd (snd (run (k r) rs))"
  by (simp split: prod.splits)

lemma execute_Cons_fst:
  "fst (execute (s # ss) st) = fst (execute ss (fst (run (handler_of s st) (results_of s))))"
  by (simp split: prod.splits)

lemma execute_Cons_snd:
  "snd (execute (s # ss) st) = fst (snd (run (handler_of s st) (results_of s))) @
      snd (execute ss (fst (run (handler_of s st) (results_of s))))"
  by (simp split: prod.splits)

lemmas run_proj = run_Await_Cons_fst run_Await_Cons_trace run_Await_Cons_end

declare run.simps(4) [simp del]
declare execute.simps(2) [simp del]

subsection \<open>The inbound list\<close>

lemma find_append_first:
  "find P (xs @ ys) = (case find P xs of None \<Rightarrow> find P ys | Some x \<Rightarrow> Some x)"
  by (induction xs) auto

lemma find_None_list_ex: "(find P xs = None) = (\<not> list_ex P xs)"
  by (induction xs) auto

lemma sent_flag_check_outbox: "sent_flag r (check_outbox rid rto st) = sent_flag r st"
proof (cases "find (\<lambda>m. out_message_id m = r) (outbound_messages st)")
  case None
  then show ?thesis
    by (simp add: sent_flag_def check_outbox_def find_append_first)
next
  case (Some a)
  then show ?thesis
    by (simp add: sent_flag_def check_outbox_def find_append_first)
qed

lemma find_check_outbox_Some:
  "\<exists>m. find (\<lambda>m. out_message_id m = rid) (outbound_messages (check_outbox rid rto st)) = Some m"
proof (cases "find (\<lambda>m. out_message_id m = rid) (outbound_messages st)")
  case None
  moreover from None have "\<not> list_ex (\<lambda>m. out_message_id m = rid) (outbound_messages st)"
    by (simp add: find_None_list_ex)
  ultimately show ?thesis
    by (simp add: check_outbox_def find_append_first)
next
  case (Some a)
  then show ?thesis
    by (simp add: check_outbox_def find_append_first find_None_list_ex [symmetric])
qed

text \<open>
  What a run of the dispatch part does, case by case: the lookup after the outbox check
  always finds a dict, so \<open>StopIteration\<close> is never raised.
\<close>

lemma run_dispatch:
  "run (dispatch mid rto resp st) rs =
     (let rid = reply_id mid; st1 = check_outbox rid rto st;
          a = send_a2a_message rto (task_id st) rid resp in
      if sent_flag rid st then (st1, [], Returned)
      else case rs of
             [] \<Rightarrow> (st1, [], Suspended a)
           | Inl e # rs' \<Rightarrow> (st1, [(a, Inl e)], Raised e)
           | Inr v # rs' \<Rightarrow> (st1\<lparr>outbound_messages := mark_sent rid (outbound_messages st1)\<rparr>,
                             [(a, Inr v)], Returned))"
proof -
  obtain m where m: "find (\<lambda>m. out_message_id m = reply_id mid)
      (outbound_messages (check_outbox (reply_id mid) rto st)) = Some m"
    using find_check_outbox_Some by blast
  have s: "sent m = sent_flag (reply_id mid) st"
    using m sent_flag_check_outbox [of "reply_id mid" "reply_id mid" rto st]
    by (simp add: sent_flag_def)
  have t: "task_id (check_outbox (reply_id mid) rto st) = task_id st"
    by (simp add: check_outbox_def)
  have d: "dispatch mid rto resp st =
      (if \<not> sent m
       then Await (check_outbox (reply_id mid) rto st)
              (send_a2a_message rto (task_id st) (reply_id mid) resp)
              (\<lambda>r. case r of Inl e \<Rightarrow> Failed e (check_outbox (reply_id mid) rto st)
                 | Inr _ \<Rightarrow> Done ((check_outbox (reply_id mid) rto st)\<lparr>outbound_messages :=
                      mark_sent (reply_id mid)
                        (outbound_messages (check_outbox (reply_id mid) rto st))\<rparr>))
       else Done (check_outbox (reply_id mid) rto st))"
    using m t unfolding dispatch_def Let_def by simp
  show ?thesis
    unfolding d Let_def s
    by (auto simp: run.simps(4) split: list.splits sum.splits)
qed

lemma run_dispatch_inbound:
  "inbound_messages (fst (run (dispatch mid rto resp st) rs)) = inbound_messages st"
  unfolding run_dispatch Let_def
  by (auto simp: check_outbox_def split: list.splits sum.splits)

lemma run_process_inbound:
  "inbound_messages (fst (run (process mid c rto st) rs)) = inbound_messages st"
  by (cases rs) (auto simp: process_def run_dispatch_inbound run_proj split: sum.splits)

lemma run_inbound_message_inbound:
  "inbound_messages (fst (run (inbound_message now msg st) rs)) =
     (if list_ex (\<lambda>m. message_id m = msg_message_id msg) (inbound_messages st)
      then inbound_messages st
      else inbound_messages (record_inbound now msg st))"
proof (cases rs)
  case Nil
  then show ?thesis
    by (simp add: inbound_message_def Let_def run_process_inbound)
next
  case (Cons x rs')
  then show ?thesis
    by (cases x) (simp_all add: inbound_message_def Let_def run_process_inbound run_proj)
qed

lemma records_of_step:
  "records_of m (fst (run (handler_of s st) (results_of s))) =
     (case s of
        Deliver now msg rs \<Rightarrow>
          if msg_message_id msg = m \<and> records_of m st = []
          then [\<lparr>message_id = m, content = msg_content msg,
                  reply_to = msg_reply_to msg, timestamp = now\<rparr>]
          else records_of m st
      | Redispatch mid rto resp rs \<Rightarrow> records_of m st)"
  by (cases s)
    (auto simp: records_of_def run_inbound_message_inbound run_dispatch_inbound
       record_inbound_def list_ex_iff filter_empty_conv)

lemma records_of_execute:
  "records_of m (fst (execute ss st)) =
     (if records_of m st = []
      then (case first_delivery m ss of None \<Rightarrow> [] | Some r \<Rightarrow> [r])
      else records_of m st)"
proof (induction ss arbitrary: st)
  case Nil
  then show ?case by simp
next
  case (Cons s ss)
  show ?case
    by (cases s)
      (simp_all add: execute_Cons_fst Cons.IH records_of_step
         del: handler_of.simps results_of.simps)
qed

lemma first_delivery_None: "(first_delivery m ss = None) = (m \<notin> set (delivered_ids ss))"
  by (induction ss rule: delivered_ids.induct) auto

text \<open>
  Claim C1 (idempotent ingestion). Start from the state \<open>run\<close> creates and take any
  execution: deliveries of any messages, each with any content and any activity results
  (handlers that raise or stay suspended included), and forced re-dispatches. Then the
  inbound list holds exactly one record with message id \<open>m\<close> if \<open>m\<close> was delivered at
  least once, and none otherwise; that record is the one written by the first delivery of
  \<open>m\<close>, whatever later deliveries carry. A delivery whose message id is already in the
  inbound list is a no-op: the handler returns at once, the state is unchanged and no
  activity is asked for.
\<close>

theorem C1_idempotent_ingestion:
  "length (records_of m (fst (execute ss (initial_state tid)))) =
     (if m \<in> set (delivered_ids ss) then 1 else 0) \<and>
   records_of m (fst (execute ss (initial_state tid))) =
     (case first_delivery m ss of None \<Rightarrow> [] | Some r \<Rightarrow> [r]) \<and>
   (list_ex (\<lambda>r. message_id r = msg_message_id msg) (inbound_messages st) \<longrightarrow>
      run (inbound_message now msg st) rs = (st, [], Returned))"
proof -
  have e: "records_of m (initial_state tid) = []"
    by (simp add: records_of_def initial_state_def)
  have a: "records_of m (fst (execute ss (initial_state tid))) =
     (case first_delivery m ss of None \<Rightarrow> [] | Some r \<Rightarrow> [r])"
    by (simp add: records_of_execute e)
  have b: "length (records_of m (fst (execute ss (initial_state tid)))) =
     (if m \<in> set (delivered_ids ss) then 1 else 0)"
    unfolding a using first_delivery_None [of m ss] by (auto split: option.splits)
  have c: "list_ex (\<lambda>r. message_id r = msg_message_id msg) (inbound_messages st) \<longrightarrow>
      run (inbound_message now msg st) rs = (st, [], Returned)"
    by (simp add: inbound_message_def)
  show ?thesis using a b c by blast
qed

text \<open>
  Three deliveries of \<open>m3\<close>, the second with another content, the first left suspended
  in the crash activity: one record; and the second delivery finds the id and does
  nothing.
\<close>

theorem C1_idempotent_ingestion_witness:
  "length (records_of ''m3'' (fst (execute three_deliveries (initial_state ''demo-1'')))) = 1 \<and>
   list_ex (\<lambda>r. message_id r = msg_message_id m3_again)
      (inbound_messages (fst (execute [Deliver 10 m3_first []] (initial_state ''demo-1'')))) \<and>
   run (inbound_message 20 m3_again
         (fst (execute [Deliver 10 m3_first []] (initial_state ''demo-1''))))
      [Inr ''reply'', Inr ''ok''] =
     (fst (execute [Deliver 10 m3_first []] (initial_state ''demo-1'')), [], Returned)"
proof -
  have d: "''m3'' \<in> set (delivered_ids three_deliveries)"
    by code_simp
  have h: "list_ex (\<lambda>r. message_id r = msg_message_id m3_again)
      (inbound_messages (fst (execute [Deliver 10 m3_first []] (initial_state ''demo-1''))))"
    by code_simp
  note t = C1_idempotent_ingestion [of "''m3''" three_deliveries "''demo-1''" m3_again
      "fst (execute [Deliver 10 m3_first []] (initial_state ''demo-1''))" 20
      "[Inr ''reply'', Inr ''ok'']"]
  have a: "length (records_of ''m3''
      (fst (execute three_deliveries (initial_state ''demo-1'')))) = 1"
    using conjunct1 [OF t] d by (simp only: if_True)
  have b: "run (inbound_message 20 m3_again
         (fst (execute [Deliver 10 m3_first []] (initial_state ''demo-1''))))
      [Inr ''reply'', Inr ''ok''] =
     (fst (execute [Deliver 10 m3_first []] (initial_state ''demo-1'')), [], Returned)"
    using conjunct2 [OF conjunct2 [OF t]] h by blast
  show ?thesis using a h b by blast
qed

subsection \<open>The outbox\<close>

lemma find_mark_sent:
  "find (\<lambda>m. out_message_id m = r) (mark_sent r' xs) =
     (if r = r' then map_option (\<lambda>m. m\<lparr>sent := True\<rparr>) (find (\<lambda>m. out_message_id m = r) xs)
      else find (\<lambda>m. out_message_id m = r) xs)"
  by (induction xs) auto

lemma length_mark_sent [simp]: "length (mark_sent r xs) = length xs"
  by (induction xs) auto

lemma nth_mark_sent:
  "i < length xs \<Longrightarrow>
     out_message_id (mark_sent r xs ! i) = out_message_id (xs ! i) \<and>
     recipient_url (mark_sent r xs ! i) = recipient_url (xs ! i) \<and>
     (sent (xs ! i) \<longrightarrow> sent (mark_sent r xs ! i))"
  by (induction xs arbitrary: i) (auto simp: nth_Cons split: nat.splits)

lemma filter_id_mark_sent:
  "length (filter (\<lambda>m. out_message_id m = r) (mark_sent r' xs)) =
   length (filter (\<lambda>m. out_message_id m = r) xs)"
  by (induction xs) auto

lemma map_ids_mark_sent: "map out_message_id (mark_sent r xs) = map out_message_id xs"
  by (induction xs) auto

lemma set_ids_mark_sent: "out_message_id ` set (mark_sent r xs) = out_message_id ` set xs"
  using map_ids_mark_sent [of r xs] by (metis set_map)

lemma never_unsent_refl: "never_unsent xs xs"
  by (simp add: never_unsent_def)

lemma never_unsent_trans: "never_unsent xs ys \<Longrightarrow> never_unsent ys zs \<Longrightarrow> never_unsent xs zs"
  unfolding never_unsent_def by (metis (no_types, lifting) le_trans less_le_trans)

lemma never_unsent_append: "never_unsent xs (xs @ ys)"
  by (simp add: never_unsent_def nth_append)

lemma never_unsent_mark_sent: "never_unsent xs (mark_sent r xs)"
  by (simp add: never_unsent_def nth_mark_sent)

lemma sent_flag_mark_sent:
  "sent_flag r (st\<lparr>outbound_messages := mark_sent rid (outbound_messages st)\<rparr>) =
     (if r = rid then list_ex (\<lambda>m. out_message_id m = r) (outbound_messages st)
      else sent_flag r st)"
proof (cases "find (\<lambda>m. out_message_id m = r) (outbound_messages st)")
  case None
  moreover from None have "\<not> list_ex (\<lambda>m. out_message_id m = r) (outbound_messages st)"
    by (simp add: find_None_list_ex)
  ultimately show ?thesis
    by (auto simp: sent_flag_def find_mark_sent)
next
  case (Some a)
  moreover from Some have "list_ex (\<lambda>m. out_message_id m = r) (outbound_messages st)"
    using find_None_list_ex [of "\<lambda>m. out_message_id m = r" "outbound_messages st"] by simp
  ultimately show ?thesis
    by (auto simp: sent_flag_def find_mark_sent)
qed

lemma list_ex_check_outbox:
  "list_ex (\<lambda>m. out_message_id m = rid) (outbound_messages (check_outbox rid rto st))"
  by (simp add: check_outbox_def)

lemma never_unsent_check_outbox:
  "never_unsent (outbound_messages st) (outbound_messages (check_outbox rid rto st))"
  by (simp add: check_outbox_def never_unsent_append never_unsent_refl)

lemma outbox_records_check_outbox:
  "length (outbox_records r st) \<le> Suc 0 \<Longrightarrow>
   length (outbox_records r (check_outbox rid rto st)) \<le> Suc 0"
  by (auto simp: outbox_records_def check_outbox_def list_ex_iff filter_empty_conv)

lemma outbox_records_mark_sent:
  "length (outbox_records r (st\<lparr>outbound_messages := mark_sent rid (outbound_messages st)\<rparr>)) =
   length (outbox_records r st)"
  by (simp add: outbox_records_def filter_id_mark_sent)

lemma step_ok_dispatch: "step_ok r st (run (dispatch mid rto resp st) rs)"
  unfolding run_dispatch Let_def step_ok_def
  by (auto simp: transmissions_def sent_flag_check_outbox sent_flag_mark_sent
        list_ex_check_outbox never_unsent_check_outbox outbox_records_check_outbox
        outbox_records_mark_sent
        intro: never_unsent_trans [OF never_unsent_check_outbox never_unsent_mark_sent]
        split: list.splits sum.splits)

lemma step_ok_Await:
  "\<not> transmitted r (a, x) \<Longrightarrow> step_ok r st (run (k x) rs) \<Longrightarrow>
   step_ok r st (run (Await st0 a k) (x # rs))"
  by (auto simp: step_ok_def run.simps(4) transmissions_def split: prod.splits)

lemma step_ok_idle: "step_ok r st (st, [], e)"
  by (simp add: step_ok_def transmissions_def never_unsent_refl)

lemma step_ok_process: "step_ok r st (run (process mid c rto st) rs)"
proof (cases rs)
  case Nil
  then show ?thesis by (simp add: process_def step_ok_idle)
next
  case (Cons x rs')
  show ?thesis
    unfolding process_def Cons
    by (rule step_ok_Await) (auto simp: step_ok_idle step_ok_dispatch split: sum.splits)
qed

lemma step_ok_same_outbox:
  "outbound_messages st1 = outbound_messages st \<Longrightarrow> step_ok r st1 res \<Longrightarrow> step_ok r st res"
  by (simp add: step_ok_def sent_flag_def outbox_records_def)

lemma outbound_record_inbound [simp]:
  "outbound_messages (record_inbound now msg st) = outbound_messages st"
  by (simp add: record_inbound_def)

lemma step_ok_inbound_message: "step_ok r st (run (inbound_message now msg st) rs)"
proof -
  let ?st1 = "record_inbound now msg st"
  have p: "step_ok r st
      (run (process (msg_message_id msg) (msg_content msg) (msg_reply_to msg) ?st1) rs')" for rs'
    by (rule step_ok_same_outbox [OF outbound_record_inbound step_ok_process])
  have i: "step_ok r st (?st1, [], e)" for e
    by (rule step_ok_same_outbox [OF outbound_record_inbound step_ok_idle])
  have c: "step_ok r st (run (Await ?st1 crash_worker
       (\<lambda>r. case r of Inl e \<Rightarrow> Failed e ?st1
           | Inr _ \<Rightarrow> process (msg_message_id msg) (msg_content msg) (msg_reply_to msg) ?st1))
       rs)"
  proof (cases rs)
    case Nil
    then show ?thesis by (simp add: i)
  next
    case (Cons x rs')
    show ?thesis
      unfolding Cons
      by (rule step_ok_Await) (auto simp: i p split: sum.splits)
  qed
  show ?thesis
    unfolding inbound_message_def Let_def
    using c p by (simp add: step_ok_idle)
qed

lemma step_ok_handler_of: "step_ok r st (run (handler_of s st) (results_of s))"
  by (cases s) (simp_all add: step_ok_inbound_message step_ok_dispatch)

lemma execute_ok:
  "transmissions r (snd (execute ss st)) \<le> 1 \<and>
   (sent_flag r st \<longrightarrow> transmissions r (snd (execute ss st)) = 0) \<and>
   (sent_flag r st \<longrightarrow> sent_flag r (fst (execute ss st))) \<and>
   never_unsent (outbound_messages st) (outbound_messages (fst (execute ss st))) \<and>
   (length (outbox_records r st) \<le> 1 \<longrightarrow>
      length (outbox_records r (fst (execute ss st))) \<le> 1)"
proof (induction ss arbitrary: st)
  case Nil
  then show ?case by (simp add: transmissions_def never_unsent_refl)
next
  case (Cons s ss)
  obtain st1 tr1 e where r: "run (handler_of s st) (results_of s) = (st1, tr1, e)"
    by (cases "run (handler_of s st) (results_of s)") auto
  have ok: "step_ok r st (st1, tr1, e)"
    using step_ok_handler_of [of r st s] r by simp
  have t: "transmissions r (snd (execute (s # ss) st)) =
      transmissions r tr1 + transmissions r (snd (execute ss st1))"
    by (simp add: execute_Cons_snd r transmissions_def)
  have f: "fst (execute (s # ss) st) = fst (execute ss st1)"
    by (simp add: execute_Cons_fst r)
  show ?case
    unfolding t f
    using ok Cons.IH [of st1]
    by (auto simp: step_ok_def intro: never_unsent_trans)
qed

text \<open>
  Claim C2 (at most one transmission per reply id). Take any execution from any state:
  deliveries and forced re-executions of the dispatch part, in any number and order, with
  any activity results. For every reply id \<open>r\<close>: at most one \<open>send_a2a_message\<close> call for
  \<open>r\<close> returns (after which the flag is set); when the flag for \<open>r\<close> is already true no
  call for \<open>r\<close> returns and the flag stays true; every outbound dict stays at its place
  and no flag goes back from true to false; and an outbox with at most one dict for \<open>r\<close>
  keeps at most one, so the outbox check appends at most once per reply id.
\<close>

theorem C2_at_most_once_delivery:
  "transmissions r (snd (execute ss st)) \<le> 1 \<and>
   (sent_flag r st \<longrightarrow> transmissions r (snd (execute ss st)) = 0) \<and>
   (sent_flag r st \<longrightarrow> sent_flag r (fst (execute ss st))) \<and>
   never_unsent (outbound_messages st) (outbound_messages (fst (execute ss st))) \<and>
   (length (outbox_records r st) \<le> 1 \<longrightarrow>
      length (outbox_records r (fst (execute ss st))) \<le> 1)"
  by (rule execute_ok)

text \<open>
  The reply to \<open>m3\<close>: the first send fails, a forced re-dispatch sends it, a second
  re-dispatch and a re-delivery send nothing more.
\<close>

theorem C2_at_most_once_delivery_witness:
  "transmissions ''r-m3'' (snd (execute replayed_dispatch (initial_state ''demo-1''))) = 1 \<and>
   sent_flag ''r-m3'' (fst (execute (take 2 replayed_dispatch) (initial_state ''demo-1''))) \<and>
   transmissions ''r-m3'' (snd (execute (drop 2 replayed_dispatch)
      (fst (execute (take 2 replayed_dispatch) (initial_state ''demo-1''))))) = 0 \<and>
   length (outbox_records ''r-m3'' (initial_state ''demo-1'')) \<le> 1 \<and>
   length (outbox_records ''r-m3''
      (fst (execute replayed_dispatch (initial_state ''demo-1'')))) \<le> 1"
proof -
  note t = C2_at_most_once_delivery [of "''r-m3''" replayed_dispatch "initial_state ''demo-1''"]
  note u = C2_at_most_once_delivery [of "''r-m3''" "drop 2 replayed_dispatch"
      "fst (execute (take 2 replayed_dispatch) (initial_state ''demo-1''))"]
  have a: "0 < transmissions ''r-m3'' (snd (execute replayed_dispatch (initial_state ''demo-1'')))"
    by code_simp
  have b: "sent_flag ''r-m3'' (fst (execute (take 2 replayed_dispatch) (initial_state ''demo-1'')))"
    by code_simp
  have c: "length (outbox_records ''r-m3'' (initial_state ''demo-1'')) \<le> 1"
    by code_simp
  have 1: "transmissions ''r-m3'' (snd (execute replayed_dispatch (initial_state ''demo-1''))) = 1"
    using conjunct1 [OF t] a by linarith
  have 2: "transmissions ''r-m3'' (snd (execute (drop 2 replayed_dispatch)
      (fst (execute (take 2 replayed_dispatch) (initial_state ''demo-1''))))) = 0"
    using conjunct1 [OF conjunct2 [OF u]] b by blast
  have 3: "length (outbox_records ''r-m3''
      (fst (execute replayed_dispatch (initial_state ''demo-1'')))) \<le> 1"
    using t c by blast
  show ?thesis using 1 b 2 c 3 by blast
qed

subsection \<open>Order of the handler's operations\<close>

text \<open>
  Claim C3 (persist before terminate). The handler first checks for a duplicate: a known
  message id makes it return with nothing done. Otherwise it appends the record, and only
  then looks at the content. If the content contains \<open>EXECUTE_ORDER_66\<close> the handler's
  first suspension is on \<open>crash_worker\<close>, in a state whose inbound list already ends with
  the record of this message, and with no activity run before; \<open>process_message\<close> is
  asked for only by the rest of the handler, after the crash activity has returned, and
  if the crash activity raises the handler ends there. Without the marker the first
  suspension is on \<open>process_message\<close>, again with the record already appended. However
  the handling of a new message ends (returned, raised, or left suspended because the
  worker died), the record is in the inbound list.
\<close>

theorem C3_persist_before_terminate:
  "(list_ex (\<lambda>m. message_id m = msg_message_id msg) (inbound_messages st) \<longrightarrow>
      inbound_message now msg st = Done st) \<and>
   (\<not> list_ex (\<lambda>m. message_id m = msg_message_id msg) (inbound_messages st) \<and>
    is_substring ''EXECUTE_ORDER_66'' (msg_content msg) \<longrightarrow>
      (\<exists>k. inbound_message now msg st = Await (record_inbound now msg st) crash_worker k \<and>
           (\<forall>v. \<exists>k'. k (Inr v) = Await (record_inbound now msg st)
                 (process_message (task_id st) (msg_message_id msg) (msg_content msg)) k') \<and>
           (\<forall>e. k (Inl e) = Failed e (record_inbound now msg st))) \<and>
      run (inbound_message now msg st) [] =
        (record_inbound now msg st, [], Suspended crash_worker)) \<and>
   (\<not> list_ex (\<lambda>m. message_id m = msg_message_id msg) (inbound_messages st) \<and>
    \<not> is_substring ''EXECUTE_ORDER_66'' (msg_content msg) \<longrightarrow>
      (\<exists>k. inbound_message now msg st = Await (record_inbound now msg st)
                 (process_message (task_id st) (msg_message_id msg) (msg_content msg)) k)) \<and>
   (\<not> list_ex (\<lambda>m. message_id m = msg_message_id msg) (inbound_messages st) \<longrightarrow>
      inbound_messages (fst (run (inbound_message now msg st) rs)) =
        inbound_messages (record_inbound now msg st)) \<and>
   inbound_messages (record_inbound now msg st) = inbound_messages st @
      [\<lparr>message_id = msg_message_id msg, content = msg_content msg,
        reply_to = msg_reply_to msg, timestamp = now\<rparr>] \<and>
   outbound_messages (record_inbound now msg st) = outbound_messages st"
proof -
  have "\<not> list_ex (\<lambda>m. message_id m = msg_message_id msg) (inbound_messages st) \<longrightarrow>
      inbound_messages (fst (run (inbound_message now msg st) rs)) =
        inbound_messages (record_inbound now msg st)"
    by (simp add: run_inbound_message_inbound)
  then show ?thesis
    by (simp add: inbound_message_def Let_def record_inbound_def process_def)
qed

text \<open>The first delivery of \<open>m3\<close>, which carries the marker, to a fresh workflow.\<close>

theorem C3_persist_before_terminate_witness:
  "\<not> list_ex (\<lambda>m. message_id m = msg_message_id m3_first)
       (inbound_messages (initial_state ''demo-1'')) \<and>
   is_substring ''EXECUTE_ORDER_66'' (msg_content m3_first) \<and>
   (\<exists>k. inbound_message 10 m3_first (initial_state ''demo-1'') =
          Await (record_inbound 10 m3_first (initial_state ''demo-1'')) crash_worker k)"
proof -
  note t = C3_persist_before_terminate [of m3_first "initial_state ''demo-1''" 10]
  have a: "\<not> list_ex (\<lambda>m. message_id m = msg_message_id m3_first)
      (inbound_messages (initial_state ''demo-1''))"
    by code_simp
  have b: "is_substring ''EXECUTE_ORDER_66'' (msg_content m3_first)"
    by code_simp
  show ?thesis using t a b by blast
qed

subsection \<open>The reply id\<close>

lemma ids_ok_dispatch: "ids_ok mid st (run (dispatch mid rto resp st) rs)"
  unfolding run_dispatch Let_def ids_ok_def
  by (auto simp: requested_def check_outbox_def reply_id_def set_ids_mark_sent
        split: list.splits sum.splits)

lemma ids_ok_Await:
  "send_ids [a] = [] \<Longrightarrow> ids_ok mid st (run (k x) rs) \<Longrightarrow>
   ids_ok mid st (run (Await st0 a k) (x # rs))"
  by (cases a) (auto simp: ids_ok_def requested_def run.simps(4) split: prod.splits)

lemma ids_ok_idle:
  "send_ids [a] = [] \<Longrightarrow> ids_ok mid st (st, [], Suspended a)"
  "ids_ok mid st (st, [], Raised e)"
  "ids_ok mid st (st, [], Returned)"
  by (auto simp: ids_ok_def requested_def)

lemma ids_ok_process: "ids_ok mid st (run (process mid c rto st) rs)"
proof (cases rs)
  case Nil
  then show ?thesis by (simp add: process_def ids_ok_idle)
next
  case (Cons x rs')
  show ?thesis
    unfolding process_def Cons
    by (rule ids_ok_Await) (auto simp: ids_ok_idle ids_ok_dispatch split: sum.splits)
qed

lemma ids_ok_same_outbox:
  "outbound_messages st1 = outbound_messages st \<Longrightarrow> ids_ok mid st1 res \<Longrightarrow> ids_ok mid st res"
  by (simp add: ids_ok_def)

lemma ids_ok_inbound_message:
  "ids_ok (msg_message_id msg) st (run (inbound_message now msg st) rs)"
proof -
  let ?st1 = "record_inbound now msg st"
  let ?m = "msg_message_id msg"
  have p: "ids_ok ?m st (run (process ?m (msg_content msg) (msg_reply_to msg) ?st1) rs')" for rs'
    by (rule ids_ok_same_outbox [OF outbound_record_inbound ids_ok_process])
  have i: "ids_ok ?m st (?st1, [], Raised e)" for e
    by (rule ids_ok_same_outbox [OF outbound_record_inbound ids_ok_idle(2)])
  have j: "ids_ok ?m st (?st1, [], Suspended crash_worker)"
    by (rule ids_ok_same_outbox [OF outbound_record_inbound ids_ok_idle(1)]) simp
  have c: "ids_ok ?m st (run (Await ?st1 crash_worker
       (\<lambda>r. case r of Inl e \<Rightarrow> Failed e ?st1
           | Inr _ \<Rightarrow> process ?m (msg_content msg) (msg_reply_to msg) ?st1)) rs)"
  proof (cases rs)
    case Nil
    then show ?thesis by (simp add: j)
  next
    case (Cons x rs')
    show ?thesis
      unfolding Cons
      by (rule ids_ok_Await) (auto simp: i p split: sum.splits)
  qed
  show ?thesis
    unfolding inbound_message_def Let_def
    using c p by (simp add: ids_ok_idle)
qed

text \<open>
  Claim C4 (the reply id). The reply id is \<open>"r-"\<close> followed by the message id and
  depends on nothing else; \<open>m3\<close> gives \<open>r-m3\<close>. In every run of the handler, from any
  state, with any content, reply address, time and activity results, every
  \<open>send_a2a_message\<close> the handler asks for carries the id \<open>"r-"\<close> followed by the id of
  the handled message, and the only id the run can add to the outbox is that one.
\<close>

theorem C4_reply_id_deterministic:
  "reply_id m = ''r-'' @ m \<and> reply_id ''m3'' = ''r-m3'' \<and>
   set (send_ids (requested (run (inbound_message now msg st) rs))) \<subseteq>
     {''r-'' @ msg_message_id msg} \<and>
   set (map out_message_id (outbound_messages (fst (run (inbound_message now msg st) rs)))) \<subseteq>
     set (map out_message_id (outbound_messages st)) \<union> {''r-'' @ msg_message_id msg}"
  using ids_ok_inbound_message [of msg st now rs] by (simp add: reply_id_def ids_ok_def)

text \<open>A complete handling of \<open>m3\<close> sends exactly one reply, with id \<open>r-m3\<close>.\<close>

theorem C4_reply_id_deterministic_witness:
  "send_ids (requested (run (inbound_message 10 m3_first (initial_state ''demo-1''))
       [Inr ''done'', Inr ''Yes, my lord.'', Inr ''ok''])) = [''r-m3'']"
proof -
  note t = C4_reply_id_deterministic [of "''m3''" 10 m3_first "initial_state ''demo-1''"
      "[Inr ''done'', Inr ''Yes, my lord.'', Inr ''ok'']"]
  have a: "length (send_ids (requested (run (inbound_message 10 m3_first
       (initial_state ''demo-1'')) [Inr ''done'', Inr ''Yes, my lord.'', Inr ''ok'']))) = 1"
    by code_simp
  have b: "msg_message_id m3_first = ''m3''"
    by code_simp
  obtain x where x: "send_ids (requested (run (inbound_message 10 m3_first
       (initial_state ''demo-1'')) [Inr ''done'', Inr ''Yes, my lord.'', Inr ''ok''])) = [x]"
    using a by (auto simp: length_Suc_conv)
  show ?thesis using t x b by simp
qed

section \<open>Properties of Agent A\<close>

subsection \<open>Reading a run\<close>

lemma decimal_small:
  "decimal 1 = ''1''" "decimal 2 = ''2''" "decimal 3 = ''3''" "decimal (Suc 0) = ''1''"
  by (simp_all add: decimal.simps digit_def)

lemma current_update [simp]: "current (update f x) = f (current x)"
  by (simp add: current_def update_def)

lemma current_emit [simp]: "current (emit ev x) = current x"
  by (simp add: current_def emit_def)

lemma log_update [simp]: "log (update f x) = log x"
  by (simp add: update_def)

lemma log_emit [simp]: "log (emit ev x) = log x @ [ev]"
  by (simp add: emit_def)

lemma states_update [simp]: "states (update f x) = states x @ [f (current x)]"
  by (simp add: update_def)

lemma states_emit [simp]: "states (emit ev x) = states x"
  by (simp add: emit_def)

lemma log_signals [simp]: "log (signals rs x) = log x"
  by (induction rs arbitrary: x) auto

lemma sent_signals [simp]: "sentMessages (current (signals rs x)) = sentMessages (current x)"
  by (induction rs arbitrary: x) (auto simp: replyReceived_def)

lemma taskId_signals [simp]: "taskId (current (signals rs x)) = taskId (current x)"
  by (induction rs arbitrary: x) (auto simp: replyReceived_def)

lemma replies_signals [simp]:
  "receivedReplies (current (signals rs x)) = receivedReplies (current x) @ map reply_entry rs"
  by (induction rs arbitrary: x) (auto simp: replyReceived_def)

lemma calls_append [simp]: "calls (xs @ ys) = calls xs @ calls ys"
  by (induction xs rule: calls.induct) auto

lemma sleeps_append [simp]: "sleeps (xs @ ys) = sleeps xs @ sleeps ys"
  by (induction xs rule: sleeps.induct) auto

subsection \<open>Growing states\<close>

lemma grows_refl [simp]: "grows s s"
  by (simp add: grows_def)

lemma grows_trans: "grows a b \<Longrightarrow> grows b c \<Longrightarrow> grows a c"
  by (auto simp: grows_def)

lemma in_order_update:
  assumes "in_order n x" and "grows (current x) (f (current x))"
    and "length (sentMessages (f (current x))) \<le> m"
  shows "in_order m (update f x)"
  using assms unfolding in_order_def
  by (auto simp: sorted_wrt_append intro: grows_trans)

lemma in_order_emit: "in_order n x \<Longrightarrow> in_order n (emit ev x)"
  by (simp add: in_order_def)

lemma in_order_signals: "in_order n x \<Longrightarrow> in_order n (signals rs x)"
proof (induction rs arbitrary: x)
  case Nil
  then show ?case by simp
next
  case (Cons r rs)
  obtain reply now where r: "r = (reply, now)" by (cases r)
  have "in_order n (update (replyReceived reply now) x)"
    using Cons.prems
    by (intro in_order_update [of n]) (auto simp: grows_def replyReceived_def in_order_def)
  then show ?case
    using Cons.IH by (simp add: r)
qed

lemma in_order_mono: "in_order n x \<Longrightarrow> n \<le> m \<Longrightarrow> in_order m x"
  by (auto simp: in_order_def)

subsection \<open>One pass of the loop, and the whole workflow\<close>

lemma turn_None: "turn w tid b a i x = (None, after_turn w tid b a i x)"
  by (simp add: after_turn_def turn_def split: prod.splits option.splits)

lemma after_turn_eq:
  "after_turn w tid b a i x =
     (case proxy_sendA2AMessage (fetches w i) (turn_params tid b a i) of
        (result, n, waits) \<Rightarrow>
          let x1 = emit (Activity (turn_params tid b a i) n waits result)
                     (signals (replies_while_sending w i) x)
          in if turn_ok w tid b a i
             then signals (replies_while_sleeping w i)
                    (emit (Sleep 30000) (update (push_sent i (now_at_push w i)) x1))
             else x1)"
  by (auto simp: after_turn_def turn_def try_block_def turn_ok_def Let_def
      split: prod.splits sum.splits option.splits)

lemma sent_after_turn:
  "sentMessages (current (after_turn w tid b a i x)) =
     sentMessages (current x) @
     (if turn_ok w tid b a i
      then [\<lparr>messageId = ''m'' @ decimal i, e_content = turn_content i,
              e_timestamp = now_at_push w i\<rparr>]
      else [])"
  by (simp add: after_turn_eq Let_def push_sent_def split: prod.splits)

lemma replies_after_turn:
  "receivedReplies (current (after_turn w tid b a i x)) =
     receivedReplies (current x) @ map reply_entry (arrived_in_turn w tid b a i)"
  by (simp add: after_turn_eq Let_def push_sent_def arrived_in_turn_def split: prod.splits)

lemma calls_after_turn:
  "calls (log (after_turn w tid b a i x)) = calls (log x) @ [turn_params tid b a i]"
  by (simp add: after_turn_eq Let_def split: prod.splits)

lemma sleeps_after_turn:
  "sleeps (log (after_turn w tid b a i x)) =
     sleeps (log x) @ (if turn_ok w tid b a i then [30000] else [])"
  by (simp add: after_turn_eq Let_def split: prod.splits)

lemma in_order_after_turn: "in_order n x \<Longrightarrow> in_order (Suc n) (after_turn w tid b a i x)"
proof -
  assume i: "in_order n x"
  obtain result k waits where p:
    "proxy_sendA2AMessage (fetches w i) (turn_params tid b a i) = (result, k, waits)"
    by (cases "proxy_sendA2AMessage (fetches w i) (turn_params tid b a i)") auto
  let ?x1 = "emit (Activity (turn_params tid b a i) k waits result)
                     (signals (replies_while_sending w i) x)"
  have 1: "in_order n ?x1"
    using i by (intro in_order_emit in_order_signals)
  have 2: "in_order (Suc n) (update (push_sent i (now_at_push w i)) ?x1)"
    using 1 by (intro in_order_update [of n]) (auto simp: grows_def push_sent_def in_order_def)
  show ?thesis
    using 1 2 by (auto simp: after_turn_eq p Let_def intro: in_order_signals in_order_emit in_order_mono)
qed

lemma loop_unrolled:
  "loop w tid b a 1 x =
     (None, after_turn w tid b a 3 (after_turn w tid b a 2 (after_turn w tid b a 1 x)))"
proof -
  have 4: "loop w tid b a 4 y = (None, y)" for y
    by (subst loop.simps) simp
  have 3: "loop w tid b a 3 y = (None, after_turn w tid b a 3 y)" for y
    by (subst loop.simps) (simp add: turn_None 4 del: One_nat_def)
  have 2: "loop w tid b a 2 y = (None, after_turn w tid b a 3 (after_turn w tid b a 2 y))" for y
    by (subst loop.simps) (simp add: turn_None 3 del: One_nat_def)
  show ?thesis
    by (subst loop.simps) (simp add: turn_None 2 del: One_nat_def)
qed

lemma current_single [simp]: "current \<lparr>states = [s], log = l\<rparr> = s"
  by (simp add: current_def)

lemma InitiatorWorkflow_eq:
  "InitiatorWorkflow tid b a w = (Inr (current (finished w tid b a)), finished w tid b a)"
  by (simp add: InitiatorWorkflow_def loop_unrolled finished_def Let_def del: One_nat_def)

lemma in_order_finished: "in_order 3 (finished w tid b a)"
proof -
  have 0: "in_order 0 \<lparr>states = [\<lparr>taskId = tid, sentMessages = [], receivedReplies = []\<rparr>], log = []\<rparr>"
    by (simp add: in_order_def)
  have "in_order (Suc (Suc (Suc 0))) (after_turn w tid b a 3 (after_turn w tid b a 2 (after_turn w tid b a 1
          \<lparr>states = [\<lparr>taskId = tid, sentMessages = [], receivedReplies = []\<rparr>], log = []\<rparr>)))"
    by (intro in_order_after_turn 0)
  then show ?thesis
    unfolding finished_def by (intro in_order_signals in_order_emit) (simp add: numeral_3_eq_3)
qed

lemma sent_finished:
  "sentMessages (current (finished w tid b a)) =
     map (\<lambda>i. \<lparr>messageId = ''m'' @ decimal i, e_content = turn_content i,
                e_timestamp = now_at_push w i\<rparr>)
       (filter (turn_ok w tid b a) [1, 2, 3])"
  by (simp add: finished_def sent_after_turn)

lemma replies_finished:
  "receivedReplies (current (finished w tid b a)) = map reply_entry (arrived w tid b a)"
  by (simp add: finished_def replies_after_turn arrived_def)

lemma calls_finished:
  "calls (log (finished w tid b a)) = map (turn_params tid b a) [1, 2, 3]"
  by (simp add: finished_def calls_after_turn)

lemma sleeps_finished:
  "sleeps (log (finished w tid b a)) =
     map (\<lambda>i. 30000) (filter (turn_ok w tid b a) [1, 2, 3]) @ [10000]"
  by (simp add: finished_def sleeps_after_turn)

subsection \<open>Driver monotonicity\<close>

lemma sorted_wrt_grows_sent: "sorted_wrt grows h \<Longrightarrow> sent_nondecreasing h"
  unfolding sent_nondecreasing_def
  by (erule sorted_wrt_mono_rel [rotated]) (auto simp: grows_def prefix_length_le)

lemma sorted_wrt_grows_replies: "sorted_wrt grows h \<Longrightarrow> replies_only_grow h"
  unfolding replies_only_grow_def
  by (erule sorted_wrt_mono_rel [rotated]) (auto simp: grows_def)

lemma in_order_sent_bounded: "in_order n x \<Longrightarrow> sent_bounded n (states x)"
  unfolding in_order_def sent_bounded_def grows_def
  by (meson le_trans prefix_length_le)

lemma current_in_states: "in_order n x \<Longrightarrow> current x \<in> set (states x)"
  by (simp add: in_order_def current_def)

lemma turn_ok_all_ok: "turn_ok all_ok tid b a i"
  by (simp add: turn_ok_def all_ok_def proxy_sendA2AMessage_def execute_activity.simps
      sendA2AMessage_def ok_def)

lemma turn_ok_lost_answer: "turn_ok lost_answer tid b a i = (i \<noteq> 1)"
  by (simp add: turn_ok_def lost_answer_def proxy_sendA2AMessage_def execute_activity.simps
      sendA2AMessage_def ok_def retry_def)

text \<open>
  Claim C5 (driver monotonicity), as stated, fails on the code in two ways. The turn
  count of the start request never reaches the workflow: a request for one turn starts a
  run that records three sent turns, so the bound by the configured count fails. And the
  signal handler records every reply it is given without looking at \<open>sentMessages\<close>: in
  a world where the answers to the POST of turn 1 are lost while Agent B has handled the
  message and replied, the reply \<open>r-m1\<close> is recorded though no entry for \<open>m1\<close> is, or
  ever will be, among the sent turns.
\<close>

theorem C5_driver_monotonicity_counterexample:
  "started_run (start_task decimal demo_config temporal_up one_turn_request) all_ok = Some run_all_ok \<and>
   \<not> spec_driver_monotonicity 1 (states (snd run_all_ok)) \<and>
   \<not> sent_bounded 1 (states (snd run_all_ok)) \<and>
   \<not> spec_driver_monotonicity 3 (states (snd run_lost_answer)) \<and>
   \<not> replies_correlated (states (snd run_lost_answer))"
proof -
  have s: "started_run (start_task decimal demo_config temporal_up one_turn_request) all_ok =
      Some run_all_ok"
    by (simp add: started_run_def start_task_def demo_config_def temporal_up_def
        one_turn_request_def falsy_def or_default_def Let_def run_all_ok_def)
  let ?f = "finished all_ok ''demo-1'' ''http://agent-b:8080'' ''http://agent-a:8081''"
  let ?g = "finished lost_answer ''demo-1'' ''http://agent-b:8080'' ''http://agent-a:8081''"
  have f: "snd run_all_ok = ?f" and g: "snd run_lost_answer = ?g"
    by (simp_all add: run_all_ok_def run_lost_answer_def InitiatorWorkflow_eq)
  have "length (sentMessages (current ?f)) = 3"
    by (simp add: sent_finished turn_ok_all_ok)
  moreover have "current ?f \<in> set (states ?f)"
    by (rule current_in_states [OF in_order_finished])
  ultimately have b: "\<not> sent_bounded 1 (states (snd run_all_ok))"
    unfolding f sent_bounded_def by (metis numeral_le_one_iff semiring_norm(70))
  have r: "receivedReplies (current ?g) =
      [\<lparr>messageId = ''r-m1'', e_content = ''Yes, my lord.'', e_timestamp = 900\<rparr>]"
    by (simp add: replies_finished arrived_def arrived_in_turn_def turn_ok_lost_answer
        lost_answer_def)
  have t: "map messageId (sentMessages (current ?g)) = [''m2'', ''m3'']"
    by (simp add: sent_finished turn_ok_lost_answer decimal_small)
  have "\<not> (\<forall>r\<in>set (receivedReplies (current ?g)). \<exists>t\<in>set (sentMessages (current ?g)). corresponds r t)"
  proof -
    have "\<not> (\<exists>i\<in>set (map messageId (sentMessages (current ?g))). ''r-m1'' = ''r-'' @ i \<or> ''r-m1'' = i)"
      unfolding t by simp
    then show ?thesis
      unfolding r by (simp add: corresponds_def)
  qed
  moreover have "current ?g \<in> set (states ?g)"
    by (rule current_in_states [OF in_order_finished])
  ultimately have c: "\<not> replies_correlated (states (snd run_lost_answer))"
    unfolding g replies_correlated_def by blast
  show ?thesis
    using s b c by (simp add: spec_driver_monotonicity_def)
qed

text \<open>
  Claim C5, amended. Over the states of every run of the workflow, oldest first: the
  length of \<open>sentMessages\<close> never decreases and is at most 3, the fixed number of
  passes of the workflow's loop; \<open>receivedReplies\<close> only grows, and at the end it holds
  every reply that was signalled to the workflow, in order of arrival, each recorded as
  it came: the signal handler appends the reply it is given and leaves \<open>sentMessages\<close>
  alone, with no check that a turn with a corresponding id was sent.
\<close>

theorem C5_driver_monotonicity_amended:
  "sent_nondecreasing (states (snd (InitiatorWorkflow tid b a w))) \<and>
   sent_bounded 3 (states (snd (InitiatorWorkflow tid b a w))) \<and>
   replies_only_grow (states (snd (InitiatorWorkflow tid b a w))) \<and>
   receivedReplies (current (snd (InitiatorWorkflow tid b a w))) =
     map reply_entry (arrived w tid b a) \<and>
   receivedReplies (replyReceived reply now s) = receivedReplies s @ [reply_entry (reply, now)] \<and>
   sentMessages (replyReceived reply now s) = sentMessages s"
  using in_order_finished [of w tid b a]
  by (simp add: InitiatorWorkflow_eq replies_finished replyReceived_def in_order_sent_bounded
      sorted_wrt_grows_sent sorted_wrt_grows_replies in_order_def)

text \<open>The run where all goes well: three states with one, two and three sent turns
  are among its states, in this order, and its three replies are all recorded.\<close>

theorem C5_driver_monotonicity_amended_witness:
  "sent_nondecreasing (states (snd run_all_ok)) \<and>
   sent_bounded 3 (states (snd run_all_ok)) \<and>
   length (sentMessages (current (snd run_all_ok))) = 3 \<and>
   map messageId (receivedReplies (current (snd run_all_ok))) = [''r-m1'', ''r-m2'', ''r-m3'']"
proof -
  note t = C5_driver_monotonicity_amended [of "''demo-1''" "''http://agent-b:8080''"
      "''http://agent-a:8081''" all_ok]
  have a: "length (sentMessages (current (snd run_all_ok))) = 3"
    by (simp add: run_all_ok_def InitiatorWorkflow_eq sent_finished turn_ok_all_ok)
  have b: "map messageId (map reply_entry (arrived all_ok ''demo-1'' ''http://agent-b:8080''
      ''http://agent-a:8081'')) = [''r-m1'', ''r-m2'', ''r-m3'']"
    by (simp add: arrived_def arrived_in_turn_def turn_ok_all_ok)
       (simp add: all_ok_def decimal_small)
  show ?thesis
    using t a b unfolding run_all_ok_def by simp
qed

subsection \<open>The content of a turn\<close>

text \<open>
  The content and the message id of the activity call of turn \<open>i\<close> depend on \<open>i\<close>
  alone: two runs, on any task ids, addresses and worlds, build the same content for the
  same turn. (The timestamps are what \<open>Date.now()\<close> returns; which clock stands behind
  that call inside a workflow is decided by the runtime, not by this code.)
\<close>

lemma turn_content_depends_on_index_only:
  "map p_content (calls (log (snd (InitiatorWorkflow tid b a w)))) =
   map p_content (calls (log (snd (InitiatorWorkflow tid' b' a' w')))) \<and>
   p_content (turn_params tid b a i) = turn_content i \<and>
   p_messageId (turn_params tid b a i) = ''m'' @ decimal i"
  by (simp add: InitiatorWorkflow_eq calls_finished turn_params_def)

text \<open>
  The returned state depends on the world only through which turns succeeded, the
  values read at the three pushes, and the replies that arrived with the values read in
  their handlers: two runs that agree on these return the same state.
\<close>

lemma taskId_after_turn [simp]:
  "taskId (current (after_turn w tid b a i x)) = taskId (current x)"
  by (simp add: after_turn_eq Let_def push_sent_def split: prod.splits)

lemma taskId_finished: "taskId (current (finished w tid b a)) = tid"
  by (simp add: finished_def)

lemma returned_state_determined:
  assumes "\<forall>i\<in>{1, 2, 3}. turn_ok w tid b a i = turn_ok w' tid b a i \<and>
              now_at_push w i = now_at_push w' i"
    and "arrived w tid b a = arrived w' tid b a"
  shows "fst (InitiatorWorkflow tid b a w) = fst (InitiatorWorkflow tid b a w')"
proof -
  have f: "filter (turn_ok w tid b a) [1, 2, 3] = filter (turn_ok w' tid b a) [1, 2, 3]"
    using assms(1) by (intro filter_cong) auto
  have n: "i \<in> set (filter (turn_ok w' tid b a) [1, 2, 3]) \<Longrightarrow>
      now_at_push w i = now_at_push w' i" for i
    using assms(1) by auto
  have "sentMessages (current (finished w tid b a)) =
      sentMessages (current (finished w' tid b a))"
    unfolding sent_finished f using n by (intro map_cong) auto
  moreover have "receivedReplies (current (finished w tid b a)) =
      receivedReplies (current (finished w' tid b a))"
    by (simp add: replies_finished assms(2))
  moreover have "taskId (current (finished w tid b a)) = taskId (current (finished w' tid b a))"
    by (simp add: taskId_finished)
  ultimately have "current (finished w tid b a) = current (finished w' tid b a)"
    by (intro InitiatorWorkflowState.equality) simp_all
  then show ?thesis
    by (simp add: InitiatorWorkflow_eq)
qed

subsection \<open>The reply endpoint\<close>

lemma required_fields_Some:
  "required_fields req = Some (t, m, c) \<longleftrightarrow>
     (\<exists>p. rq_params req = Some p \<and> rp_taskId p = Some t \<and> rp_messageId p = Some m \<and>
          rp_content p = Some c \<and> t \<noteq> [] \<and> m \<noteq> [] \<and> c \<noteq> [])"
  by (auto simp: required_fields_def split: option.splits)

lemma message_send_invalid:
  assumes "required_fields req = None"
  shows "message_send signal req = missing_fields req"
proof (cases "rq_params req")
  case None
  then show ?thesis by (simp add: message_send_def falsy_def)
next
  case (Some p)
  show ?thesis
  proof (cases "falsy (rp_taskId p) \<or> falsy (rp_messageId p) \<or> falsy (rp_content p)")
    case True
    then show ?thesis using Some by (simp add: message_send_def)
  next
    case False
    then obtain t m c where "rp_taskId p = Some t" "rp_messageId p = Some m" "rp_content p = Some c"
      "t \<noteq> []" "m \<noteq> []" "c \<noteq> []"
      by (auto simp: falsy_def)
    then have "required_fields req = Some (t, m, c)"
      using Some by (simp add: required_fields_def)
    then show ?thesis using assms by simp
  qed
qed

lemma message_send_valid:
  assumes "required_fields req = Some (t, m, c)"
  shows "message_send signal req =
     (let workflowId = ''initiator-'' @ t;
          reply = \<lparr>r_messageId = m, r_content = c\<rparr>;
          received = (Info, ''Received reply '' @ m @ '' for task '' @ t);
          success = RpcResult ''received'' (if falsy (rq_id req) then Some m else rq_id req)
      in (case signal workflowId reply of
            Signalled \<Rightarrow>
              \<lparr>http_status = 200, rpc_body = success,
               console = [received,
                 (Info, ''Signaled workflow '' @ workflowId @ '' with reply '' @ m)],
               signal_sent = Some (workflowId, reply)\<rparr>
          | WorkflowNotFoundError \<Rightarrow>
              \<lparr>http_status = 200, rpc_body = success,
               console = [received,
                 (Warning, ''Workflow '' @ workflowId @
                    '' not found, reply may have arrived late'')],
               signal_sent = Some (workflowId, reply)\<rparr>
          | SignalError e \<Rightarrow>
              \<lparr>http_status = 500,
               rpc_body = RpcError (- 32603) ''Internal server error'' (rq_id req),
               console = [received,
                 (Problem, ''Failed to signal workflow: '' @ e),
                 (Problem, ''Error processing A2A message: '' @ e)],
               signal_sent = Some (workflowId, reply)\<rparr>))"
proof -
  obtain p where p: "rq_params req = Some p" "rp_taskId p = Some t" "rp_messageId p = Some m"
      "rp_content p = Some c" "t \<noteq> []" "m \<noteq> []" "c \<noteq> []"
    using assms unfolding required_fields_Some by blast
  have f: "\<not> (falsy (rp_taskId p) \<or> falsy (rp_messageId p) \<or> falsy (rp_content p))"
    using p by (simp add: falsy_def)
  show ?thesis
    using f by (simp add: message_send_def p Let_def)
qed

text \<open>
  Claim C7, as stated, fails on the code: the handler checks the three required fields
  before it looks for the workflow. A reply for a task whose workflow is gone, with a
  task id and a message id but an empty content, is answered with status 400 and the
  JSON-RPC error -32602, with no warning logged, not with the success response.
\<close>

theorem C7_reply_without_workflow_counterexample:
  "rq_params empty_reply =
     Some \<lparr>rp_taskId = Some ''demo-1'', rp_messageId = Some ''r-m3'', rp_content = Some ''''\<rparr> \<and>
   workflow_gone ''initiator-demo-1'' \<lparr>r_messageId = ''r-m3'', r_content = ''''\<rparr> = WorkflowNotFoundError \<and>
   http_status (message_send workflow_gone empty_reply) = 400 \<and>
   rpc_body (message_send workflow_gone empty_reply) =
     RpcError (- 32602) ''Missing required fields: taskId, messageId, content'' (Some ''r-m3'') \<and>
   console (message_send workflow_gone empty_reply) = []"
  by (simp add: message_send_def empty_reply_def workflow_gone_def falsy_def missing_fields_def)

text \<open>
  Claim C7, amended. For every reply posted to \<open>/a2a/message/send\<close> that carries a
  non-empty task id, message id and content, and whose task has no workflow (the signal
  throws \<open>WorkflowNotFoundError\<close>): the handler logs a warning and answers with status 200
  and the JSON-RPC result \<open>{status: "received"}\<close>. The handler answers 500 exactly when
  the three fields are there and the signal fails with something other than
  workflow-not-found. A request that lacks one of the three fields is answered 400 with
  the JSON-RPC error -32602, nothing is logged and no signal is sent for it.
\<close>

theorem C7_reply_without_workflow_amended:
  "(required_fields req = Some (t, m, c) \<and>
    signal (''initiator-'' @ t) \<lparr>r_messageId = m, r_content = c\<rparr> = WorkflowNotFoundError \<longrightarrow>
      http_status (message_send signal req) = 200 \<and>
      rpc_body (message_send signal req) =
        RpcResult ''received'' (if falsy (rq_id req) then Some m else rq_id req) \<and>
      console (message_send signal req) =
        [(Info, ''Received reply '' @ m @ '' for task '' @ t),
         (Warning, ''Workflow initiator-'' @ t @ '' not found, reply may have arrived late'')]) \<and>
   (http_status (message_send signal req) = 500 \<longleftrightarrow>
      (\<exists>t m c e. required_fields req = Some (t, m, c) \<and>
         signal (''initiator-'' @ t) \<lparr>r_messageId = m, r_content = c\<rparr> = SignalError e)) \<and>
   (required_fields req = None \<longrightarrow>
      http_status (message_send signal req) = 400 \<and>
      rpc_body (message_send signal req) =
        RpcError (- 32602) ''Missing required fields: taskId, messageId, content'' (rq_id req) \<and>
      console (message_send signal req) = [] \<and>
      signal_sent (message_send signal req) = None)"
proof (cases "required_fields req")
  case None
  then show ?thesis
    by (simp add: message_send_invalid missing_fields_def)
next
  case (Some f)
  obtain t' m' c' where f: "f = (t', m', c')" by (cases f)
  show ?thesis
    using message_send_valid [of req t' m' c' signal] Some f
    by (cases "signal (''initiator-'' @ t') \<lparr>r_messageId = m', r_content = c'\<rparr>")
      (auto simp: Let_def)
qed

text \<open>A complete late reply is accepted; the one with the empty content is not.\<close>

theorem C7_reply_without_workflow_amended_witness:
  "required_fields late_reply = Some (''demo-1'', ''r-m3'', ''Yes, my lord.'') \<and>
   workflow_gone (''initiator-'' @ ''demo-1'') \<lparr>r_messageId = ''r-m3'', r_content = ''Yes, my lord.''\<rparr>
     = WorkflowNotFoundError \<and>
   http_status (message_send workflow_gone late_reply) = 200 \<and>
   rpc_body (message_send workflow_gone late_reply) = RpcResult ''received'' (Some ''r-m3'') \<and>
   required_fields empty_reply = None \<and>
   http_status (message_send workflow_gone empty_reply) = 400"
proof -
  have a: "required_fields late_reply = Some (''demo-1'', ''r-m3'', ''Yes, my lord.'')"
    by (simp add: required_fields_def late_reply_def)
  have b: "workflow_gone (''initiator-'' @ ''demo-1'')
      \<lparr>r_messageId = ''r-m3'', r_content = ''Yes, my lord.''\<rparr> = WorkflowNotFoundError"
    by (simp add: workflow_gone_def)
  have c: "required_fields empty_reply = None"
    by (simp add: required_fields_def empty_reply_def)
  have d: "rq_id late_reply = Some ''r-m3''"
    by (simp add: late_reply_def)
  note t = C7_reply_without_workflow_amended [of late_reply "''demo-1''" "''r-m3''" "''Yes, my lord.''" workflow_gone]
  note u = C7_reply_without_workflow_amended [of empty_reply "''demo-1''" "''r-m3''" "''Yes, my lord.''" workflow_gone]
  have 1: "http_status (message_send workflow_gone late_reply) = 200 \<and>
      rpc_body (message_send workflow_gone late_reply) = RpcResult ''received'' (Some ''r-m3'')"
    using conjunct1 [OF t] a b d by (simp add: falsy_def)
  have 2: "http_status (message_send workflow_gone empty_reply) = 400"
    using conjunct2 [OF conjunct2 [OF u]] c by blast
  show ?thesis using a b c 1 2 by blast
qed

subsection \<open>Retries of the send activity\<close>

text \<open>
  The loop makes at most \<open>maximumAttempts\<close> attempts, and no wait exceeds
  \<open>maximumInterval\<close>.
\<close>

lemma execute_activity_bounded:
  "n \<le> maximumAttempts pol \<Longrightarrow> 0 < n \<Longrightarrow>
   fst (snd (execute_activity pol attempt n)) \<le> maximumAttempts pol \<and>
   (\<forall>d\<in>set (snd (snd (execute_activity pol attempt n))). d \<le> maximumInterval pol)"
proof (induction pol attempt n rule: execute_activity.induct)
  case (1 pol attempt n)
  show ?case
  proof (cases "attempt n")
    case (Inr v)
    then show ?thesis using "1.prems" by (simp add: execute_activity.simps [of pol attempt n])
  next
    case (Inl e)
    show ?thesis
    proof (cases "error_name e \<in> set (nonRetryableErrorTypes pol) \<or> maximumAttempts pol \<le> n")
      case True
      then show ?thesis using Inl "1.prems" by (simp add: execute_activity.simps [of pol attempt n])
    next
      case False
      then have "Suc n \<le> maximumAttempts pol" by simp
      with "1.IH" [OF Inl False] have
        "fst (snd (execute_activity pol attempt (Suc n))) \<le> maximumAttempts pol \<and>
         (\<forall>d\<in>set (snd (snd (execute_activity pol attempt (Suc n)))). d \<le> maximumInterval pol)"
        by simp
      then show ?thesis
        using Inl False
        by (auto simp: execute_activity.simps [of pol attempt n] backoff_def split: prod.splits)
    qed
  qed
qed

text \<open>
  The proxy call, attempt by attempt: whatever error an attempt throws, the next attempt
  is made, until one returns or three have failed.
\<close>

lemma proxy_sendA2AMessage_eq:
  "proxy_sendA2AMessage fetch params =
     (case sendA2AMessage params (fetch 1) of
        Inr v \<Rightarrow> (Inr v, 1, [])
      | Inl e1 \<Rightarrow>
          (case sendA2AMessage params (fetch 2) of
             Inr v \<Rightarrow> (Inr v, 2, [1000])
           | Inl e2 \<Rightarrow>
               (case sendA2AMessage params (fetch 3) of
                  Inr v \<Rightarrow> (Inr v, 3, [1000, 2000])
                | Inl e3 \<Rightarrow> (Inl e3, 3, [1000, 2000]))))"
proof -
  let ?a = "\<lambda>n. sendA2AMessage params (fetch n)"
  have 3: "execute_activity retry ?a 3 =
      (case ?a 3 of Inr v \<Rightarrow> (Inr v, 3, []) | Inl e \<Rightarrow> (Inl e, 3, []))"
    by (subst execute_activity.simps) (simp add: retry_def split: sum.splits)
  have 2: "execute_activity retry ?a 2 =
      (case ?a 2 of Inr v \<Rightarrow> (Inr v, 2, [])
       | Inl e \<Rightarrow> (case execute_activity retry ?a 3 of
                     (r, k, waits) \<Rightarrow> (r, k, 2000 # waits)))"
    by (subst execute_activity.simps)
       (simp add: retry_def backoff_def eval_nat_numeral split: sum.splits)
  have 1: "execute_activity retry ?a 1 =
      (case ?a 1 of Inr v \<Rightarrow> (Inr v, 1, [])
       | Inl e \<Rightarrow> (case execute_activity retry ?a 2 of
                     (r, k, waits) \<Rightarrow> (r, k, 1000 # waits)))"
    by (subst execute_activity.simps)
       (simp add: retry_def backoff_def eval_nat_numeral split: sum.splits)
  show ?thesis
    unfolding proxy_sendA2AMessage_def 1 2 3
    by (simp split: sum.splits)
qed

lemma turn_ok_unauthorized: "\<not> turn_ok unauthorized tid b a i"
  by (simp add: turn_ok_def unauthorized_def proxy_sendA2AMessage_def execute_activity.simps
      sendA2AMessage_def ok_def retry_def)

lemma sendA2AMessage_not_ok:
  "\<not> ok status \<Longrightarrow>
   sendA2AMessage params (HttpResponse status statusText body) =
     Inl (JsError ''Error'' (''HTTP '' @ decimal status @ '': '' @ statusText))"
  by (simp add: sendA2AMessage_def)

lemma sent_after_failed_turn:
  "\<not> turn_ok w tid b a i \<Longrightarrow>
   sentMessages (current (snd (turn w tid b a i x))) = sentMessages (current x)"
  using sent_after_turn [of w tid b a i x] by (simp add: after_turn_def)

text \<open>
  Claim C8 (failure classification), as stated, fails on the code: no failure is treated
  as permanent. When Agent B answers 401 to every POST of turn 1, the proxy does not stop
  after one attempt: it makes three, waiting 1 and 2 seconds between them, and only then
  does the failure reach the workflow.
\<close>

theorem C8_failure_classification_counterexample:
  "proxy_sendA2AMessage (fetches unauthorized 1)
      (turn_params ''demo-1'' ''http://agent-b:8080'' ''http://agent-a:8081'' 1) =
     (Inl (JsError ''Error'' ''HTTP 401: Unauthorized''), 3, [1000, 2000]) \<and>
   fst (snd (proxy_sendA2AMessage (fetches unauthorized 1)
      (turn_params ''demo-1'' ''http://agent-b:8080'' ''http://agent-a:8081'' 1))) \<noteq> 1"
  by (simp add: proxy_sendA2AMessage_eq unauthorized_def sendA2AMessage_def ok_def
      decimal.simps digit_def)

text \<open>
  Claim C8, amended. The send operation has no classification of failures: an HTTP
  status outside 200..299 is thrown as the same plain \<open>Error\<close> whatever the status is
  (401 and 400 like 500 or 429), and the retry options name no non-retryable error type.
  Every failed attempt, whatever its error, is followed by another one, with waits of 1
  second and then 2 seconds (exponential backoff, never above the cap of 10 seconds),
  until an attempt succeeds or three attempts have been made; so a send whose attempts
  all fail gets exactly three attempts, and the error of the third is what reaches the
  workflow. That failure ends only the affected turn: nothing is thrown out of the pass
  of the loop, the turn is not recorded in \<open>sentMessages\<close>, and the workflow still
  makes the activity calls of all three turns.
\<close>

theorem C8_failure_classification_amended:
  "proxy_sendA2AMessage fetch params =
     (case sendA2AMessage params (fetch 1) of
        Inr v \<Rightarrow> (Inr v, 1, [])
      | Inl e1 \<Rightarrow>
          (case sendA2AMessage params (fetch 2) of
             Inr v \<Rightarrow> (Inr v, 2, [1000])
           | Inl e2 \<Rightarrow>
               (case sendA2AMessage params (fetch 3) of
                  Inr v \<Rightarrow> (Inr v, 3, [1000, 2000])
                | Inl e3 \<Rightarrow> (Inl e3, 3, [1000, 2000])))) \<and>
   (\<not> ok status \<longrightarrow>
      sendA2AMessage params (HttpResponse status statusText body) =
        Inl (JsError ''Error'' (''HTTP '' @ decimal status @ '': '' @ statusText))) \<and>
   nonRetryableErrorTypes retry = [] \<and>
   maximumAttempts retry = 3 \<and>
   (\<forall>d\<in>set (snd (snd (proxy_sendA2AMessage fetch params))). d \<le> maximumInterval retry) \<and>
   fst (turn w tid b a i x) = None \<and>
   (\<not> turn_ok w tid b a i \<longrightarrow>
      sentMessages (current (snd (turn w tid b a i x))) = sentMessages (current x)) \<and>
   calls (log (snd (InitiatorWorkflow tid b a w))) = map (turn_params tid b a) [1, 2, 3]"
proof -
  have b: "\<forall>d\<in>set (snd (snd (proxy_sendA2AMessage fetch params))). d \<le> maximumInterval retry"
    unfolding proxy_sendA2AMessage_def
    using execute_activity_bounded [of 1 retry "\<lambda>n. sendA2AMessage params (fetch n)"]
    by (simp add: retry_def)
  have r: "nonRetryableErrorTypes retry = []" "maximumAttempts retry = 3"
    by (simp_all add: retry_def)
  have c: "calls (log (snd (InitiatorWorkflow tid b a w))) = map (turn_params tid b a) [1, 2, 3]"
    by (simp add: InitiatorWorkflow_eq calls_finished)
  show ?thesis
    using proxy_sendA2AMessage_eq [of fetch params]
      sendA2AMessage_not_ok [of status params statusText body]
      sent_after_failed_turn [of w tid b a i x] b r c
    by (simp only: turn_None fst_conv simp_thms) blast
qed

text \<open>
  Agent B answering 401 to everything: three attempts for turn 1, the turn is not
  recorded, and the pass of the loop throws nothing.
\<close>

theorem C8_failure_classification_amended_witness:
  "\<not> ok 401 \<and>
   sendA2AMessage (turn_params ''demo-1'' ''http://agent-b:8080'' ''http://agent-a:8081'' 1)
      (HttpResponse 401 ''Unauthorized'' None) =
     Inl (JsError ''Error'' ''HTTP 401: Unauthorized'') \<and>
   \<not> turn_ok unauthorized ''demo-1'' ''http://agent-b:8080'' ''http://agent-a:8081'' 1 \<and>
   sentMessages (current (snd (turn unauthorized ''demo-1'' ''http://agent-b:8080''
      ''http://agent-a:8081'' 1 \<lparr>states = [\<lparr>taskId = ''demo-1'', sentMessages = [],
        receivedReplies = []\<rparr>], log = []\<rparr>))) = [] \<and>
   fst (turn unauthorized ''demo-1'' ''http://agent-b:8080'' ''http://agent-a:8081'' 1
      \<lparr>states = [\<lparr>taskId = ''demo-1'', sentMessages = [], receivedReplies = []\<rparr>],
       log = []\<rparr>) = None"
proof -
  let ?x = "\<lparr>states = [\<lparr>taskId = ''demo-1'', sentMessages = [], receivedReplies = []\<rparr>],
       log = []\<rparr>"
  note t = C8_failure_classification_amended [where fetch = "fetches unauthorized 1"
      and params = "turn_params ''demo-1'' ''http://agent-b:8080'' ''http://agent-a:8081'' 1"
      and status = 401 and statusText = "''Unauthorized''" and body = None
      and w = unauthorized and tid = "''demo-1''" and b = "''http://agent-b:8080''"
      and a = "''http://agent-a:8081''" and i = 1 and x = ?x]
  have h1: "\<not> ok 401"
    by (simp add: ok_def)
  have h2: "\<not> turn_ok unauthorized ''demo-1'' ''http://agent-b:8080'' ''http://agent-a:8081'' 1"
    by (rule turn_ok_unauthorized)
  have d: "decimal 401 = ''401''"
    by (simp add: decimal.simps digit_def)
  have 1: "sendA2AMessage (turn_params ''demo-1'' ''http://agent-b:8080'' ''http://agent-a:8081'' 1)
      (HttpResponse 401 ''Unauthorized'' None) = Inl (JsError ''Error'' ''HTTP 401: Unauthorized'')"
    using t h1 d by simp
  have 2: "sentMessages (current (snd (turn unauthorized ''demo-1'' ''http://agent-b:8080''
      ''http://agent-a:8081'' 1 ?x))) = sentMessages (current ?x)"
    using t h2 by blast
  have 3: "fst (turn unauthorized ''demo-1'' ''http://agent-b:8080'' ''http://agent-a:8081'' 1 ?x)
      = None"
    using t by blast
  show ?thesis
    using h1 1 h2 2 3 by simp
qed

subsection \<open>Completion of the workflow\<close>

text \<open>
  Claim C9 (the workflow completes). In every world, whatever the fetches of the
  activity do (so also when the activity of one or more turns fails after all its
  retries), the workflow returns its state and throws nothing: no pass of the loop lets
  an error out. It makes exactly three activity calls, those of turns 1, 2 and 3 in this
  order; \<open>sentMessages\<close> holds exactly the turns whose call succeeded, in order, so a
  failed turn is left out and the next one is still tried; it sleeps 30 seconds after each
  successful turn and 10 seconds at the end, at most 100 seconds in all.
\<close>

theorem C9_workflow_completes:
  "fst (InitiatorWorkflow tid b a w) = Inr (current (snd (InitiatorWorkflow tid b a w))) \<and>
   fst (turn w tid b a i x) = None \<and>
   calls (log (snd (InitiatorWorkflow tid b a w))) = map (turn_params tid b a) [1, 2, 3] \<and>
   map messageId (sentMessages (current (snd (InitiatorWorkflow tid b a w)))) =
     map (\<lambda>i. ''m'' @ decimal i) (filter (turn_ok w tid b a) [1, 2, 3]) \<and>
   sleeps (log (snd (InitiatorWorkflow tid b a w))) =
     map (\<lambda>i. 30000) (filter (turn_ok w tid b a) [1, 2, 3]) @ [10000] \<and>
   sum_list (sleeps (log (snd (InitiatorWorkflow tid b a w)))) \<le> 100000"
  by (simp add: InitiatorWorkflow_eq turn_None calls_finished sent_finished sleeps_finished comp_def)

text \<open>When Agent B answers 401 to everything, the workflow still returns: with no
  sent turn and no reply.\<close>

theorem C9_workflow_completes_witness:
  "fst (InitiatorWorkflow ''demo-1'' ''http://agent-b:8080'' ''http://agent-a:8081'' unauthorized) =
     Inr \<lparr>taskId = ''demo-1'', sentMessages = [], receivedReplies = []\<rparr>"
proof -
  note t = C9_workflow_completes [of "''demo-1''" "''http://agent-b:8080''" "''http://agent-a:8081''"
      unauthorized 1 "\<lparr>states = [], log = []\<rparr>"]
  let ?s = "current (snd (InitiatorWorkflow ''demo-1'' ''http://agent-b:8080''
      ''http://agent-a:8081'' unauthorized))"
  have 1: "sentMessages ?s = []"
    using t by (simp add: turn_ok_unauthorized)
  have 2: "receivedReplies ?s = []"
    by (simp add: InitiatorWorkflow_eq replies_finished arrived_def arrived_in_turn_def
        unauthorized_def)
  have 3: "taskId ?s = ''demo-1''"
    by (simp add: InitiatorWorkflow_eq finished_def after_turn_eq Let_def push_sent_def
        split: prod.splits)
  have "?s = \<lparr>taskId = ''demo-1'', sentMessages = [], receivedReplies = []\<rparr>"
    using 1 2 3 by simp
  then show ?thesis using conjunct1 [OF t] by simp
qed

subsection \<open>The start request\<close>

lemma start_task_without_taskId:
  "falsy (sr_taskId req) \<Longrightarrow>
   start_task render cfg start req =
     \<lparr>st_status = 400, st_body = StartError ''Missing required field: taskId'' None,
      st_console = [], st_call = None\<rparr>"
  by (simp add: start_task_def Let_def)

lemma start_task_with_taskId:
  assumes "sr_taskId req = Some t" and "t \<noteq> []"
  shows "st_call (start_task render cfg start req) =
      Some \<lparr>ws_taskQueue = TASK_QUEUE cfg, ws_workflowId = ''initiator-'' @ t,
            ws_args = [t, or_default (AGENT_B_URL cfg) ''http://agent-b:8080'',
                       or_default (AGENT_A_URL cfg) ''http://agent-a:8081'']\<rparr>"
    and "st_status (start_task render cfg start req) =
      (case start \<lparr>ws_taskQueue = TASK_QUEUE cfg, ws_workflowId = ''initiator-'' @ t,
            ws_args = [t, or_default (AGENT_B_URL cfg) ''http://agent-b:8080'',
                       or_default (AGENT_A_URL cfg) ''http://agent-a:8081'']\<rparr> of
         None \<Rightarrow> 200 | Some e \<Rightarrow> 500)"
    and "st_body (start_task render cfg start req) =
      (case start \<lparr>ws_taskQueue = TASK_QUEUE cfg, ws_workflowId = ''initiator-'' @ t,
            ws_args = [t, or_default (AGENT_B_URL cfg) ''http://agent-b:8080'',
                       or_default (AGENT_A_URL cfg) ''http://agent-a:8081'']\<rparr> of
         None \<Rightarrow> StartSuccess t (''initiator-'' @ t)
                   (''Task '' @ t @ '' started. Workflow ID: '' @ ''initiator-'' @ t)
       | Some e \<Rightarrow> StartError ''Failed to start task'' (Some (case e of JsError n m \<Rightarrow> m)))"
  using assms by (simp_all add: start_task_def Let_def falsy_def split: option.splits)

lemma start_task_turns:
  "st_status (start_task render cfg start (req\<lparr>sr_turns := v\<rparr>)) =
     st_status (start_task render cfg start req) \<and>
   st_body (start_task render cfg start (req\<lparr>sr_turns := v\<rparr>)) =
     st_body (start_task render cfg start req) \<and>
   st_call (start_task render cfg start (req\<lparr>sr_turns := v\<rparr>)) =
     st_call (start_task render cfg start req)"
proof (cases "falsy (sr_taskId req)")
  case True
  then show ?thesis by (simp add: start_task_without_taskId)
next
  case False
  then obtain t where t: "sr_taskId req = Some t" "t \<noteq> []"
    by (auto simp: falsy_def)
  then have u: "sr_taskId (req\<lparr>sr_turns := v\<rparr>) = Some t"
    by simp
  show ?thesis
    by (simp only: start_task_with_taskId [OF t] start_task_with_taskId [OF u t(2)])
qed

lemma start_task_args:
  assumes "st_call (start_task render cfg start req) = Some call"
  shows "\<exists>t. sr_taskId req = Some t \<and>
      ws_args call = [t, or_default (AGENT_B_URL cfg) ''http://agent-b:8080'',
                      or_default (AGENT_A_URL cfg) ''http://agent-a:8081'']"
proof (cases "falsy (sr_taskId req)")
  case True
  then show ?thesis using assms by (simp add: start_task_without_taskId)
next
  case False
  then obtain t where t: "sr_taskId req = Some t" "t \<noteq> []"
    by (auto simp: falsy_def)
  show ?thesis
    using assms t(1) unfolding start_task_with_taskId(1) [OF t] by auto
qed

lemma started_run_cong:
  "st_status r = st_status r' \<Longrightarrow> st_call r = st_call r' \<Longrightarrow> started_run r w = started_run r' w"
  by (simp add: started_run_def)

text \<open>
  Claim C10 (the requested turn count is ignored). Whatever the \<open>turns\<close> field of a
  \<open>POST /start-task\<close> request carries, or if it is absent, the status and the body of the
  answer and the start call made to Temporal are the same (the value only appears in a
  log line), and so is the run that follows. The start call passes three arguments: the
  task id and the two agent URLs. Every run of the workflow makes exactly three activity
  calls, with message ids \<open>m1\<close>, \<open>m2\<close>, \<open>m3\<close>; the content of the third is
  \<open>[[TRIGGER:EXECUTE_ORDER_66]]\<close>, which contains the marker Agent B crashes on.
\<close>

theorem C10_turn_count_ignored:
  "st_status (start_task render cfg start (req\<lparr>sr_turns := v\<rparr>)) =
     st_status (start_task render cfg start req) \<and>
   st_body (start_task render cfg start (req\<lparr>sr_turns := v\<rparr>)) =
     st_body (start_task render cfg start req) \<and>
   st_call (start_task render cfg start (req\<lparr>sr_turns := v\<rparr>)) =
     st_call (start_task render cfg start req) \<and>
   started_run (start_task render cfg start (req\<lparr>sr_turns := v\<rparr>)) w =
     started_run (start_task render cfg start req) w \<and>
   (st_call (start_task render cfg start req) = Some call \<longrightarrow>
      (\<exists>t. sr_taskId req = Some t \<and>
           ws_args call = [t, or_default (AGENT_B_URL cfg) ''http://agent-b:8080'',
                           or_default (AGENT_A_URL cfg) ''http://agent-a:8081''])) \<and>
   map p_messageId (calls (log (snd (InitiatorWorkflow tid b a w)))) = [''m1'', ''m2'', ''m3''] \<and>
   map p_content (calls (log (snd (InitiatorWorkflow tid b a w)))) =
     [''The time is near, Commander.'', ''Soon, the Jedi will fall.'',
      ''[[TRIGGER:EXECUTE_ORDER_66]]''] \<and>
   is_substring ''EXECUTE_ORDER_66'' (turn_content 3)"
proof -
  note s = start_task_turns [where render = render and cfg = cfg and start = start
      and req = req and v = v]
  have r: "started_run (start_task render cfg start (req\<lparr>sr_turns := v\<rparr>)) w =
     started_run (start_task render cfg start req) w"
    using s by (intro started_run_cong) simp_all
  have a: "st_call (start_task render cfg start req) = Some call \<longrightarrow>
      (\<exists>t. sr_taskId req = Some t \<and>
           ws_args call = [t, or_default (AGENT_B_URL cfg) ''http://agent-b:8080'',
                           or_default (AGENT_A_URL cfg) ''http://agent-a:8081''])"
    using start_task_args [where render = render and cfg = cfg and start = start
        and req = req and call = call] by blast
  have m: "map p_messageId (calls (log (snd (InitiatorWorkflow tid b a w)))) =
      [''m1'', ''m2'', ''m3'']"
    by (simp add: InitiatorWorkflow_eq calls_finished turn_params_def decimal_small)
  have c: "map p_content (calls (log (snd (InitiatorWorkflow tid b a w)))) =
     [''The time is near, Commander.'', ''Soon, the Jedi will fall.'',
      ''[[TRIGGER:EXECUTE_ORDER_66]]'']"
    by (simp add: InitiatorWorkflow_eq calls_finished turn_params_def turn_content_def)
  have i: "is_substring ''EXECUTE_ORDER_66'' (turn_content 3)"
    by (simp add: turn_content_def)
  show ?thesis
    using s r a m c i by blast
qed

text \<open>A request for one turn and a request for five start the same run of three turns.\<close>

theorem C10_turn_count_ignored_witness:
  "started_run (start_task decimal demo_config temporal_up five_turn_request) all_ok =
     started_run (start_task decimal demo_config temporal_up one_turn_request) all_ok \<and>
   st_call (start_task decimal demo_config temporal_up one_turn_request) =
     Some \<lparr>ws_taskQueue = ''agent-a-tasks'', ws_workflowId = ''initiator-demo-1'',
           ws_args = [''demo-1'', ''http://agent-b:8080'', ''http://agent-a:8081'']\<rparr> \<and>
   sr_taskId one_turn_request = Some ''demo-1''"
proof -
  let ?call = "\<lparr>ws_taskQueue = ''agent-a-tasks'', ws_workflowId = ''initiator-demo-1'',
           ws_args = [''demo-1'', ''http://agent-b:8080'', ''http://agent-a:8081'']\<rparr>"
  note t = C10_turn_count_ignored [where render = decimal and cfg = demo_config
      and start = temporal_up and req = one_turn_request and v = "Some 5" and w = all_ok
      and call = ?call and tid = "''demo-1''" and b = "''b''" and a = "''a''"]
  have f: "one_turn_request\<lparr>sr_turns := Some 5\<rparr> = five_turn_request"
    by (simp add: one_turn_request_def five_turn_request_def)
  have q: "sr_taskId one_turn_request = Some ''demo-1''"
    by (simp add: one_turn_request_def)
  have h: "st_call (start_task decimal demo_config temporal_up one_turn_request) = Some ?call"
    using start_task_with_taskId(1) [OF q, where render = decimal and cfg = demo_config
        and start = temporal_up]
    by (simp add: demo_config_def or_default_def falsy_def)
  have 1: "started_run (start_task decimal demo_config temporal_up five_turn_request) all_ok =
     started_run (start_task decimal demo_config temporal_up one_turn_request) all_ok"
    using t unfolding f by blast
  have 2: "sr_taskId one_turn_request = Some ''demo-1''"
    using t h by auto
  show ?thesis using 1 h 2 by blast
qed

end
